theory Spec2Isabelle
  imports Complex_Main
begin

section \<open>JavaScript strings\<close>

text \<open>
  A JavaScript string is modelled as a \<^typ>\<open>string\<close>, one \<^typ>\<open>char\<close> per code unit; the
  development covers texts whose code units are below 256.  \<open>\s\<close>, \<open>\w\<close> and the case
  mapping are the ASCII ones.  The two characters beyond that range in the literals of the
  sources, the ellipsis and the em dash, are written as their UTF-8 bytes.
\<close>

definition code :: "char \<Rightarrow> nat" where
  "code c = of_char c"

definition is_space :: "char \<Rightarrow> bool" where
  "is_space c = (code c = 32 \<or> (9 \<le> code c \<and> code c \<le> 13))"

definition is_digit :: "char \<Rightarrow> bool" where
  "is_digit c = (48 \<le> code c \<and> code c \<le> 57)"

definition is_upper :: "char \<Rightarrow> bool" where
  "is_upper c = (65 \<le> code c \<and> code c \<le> 90)"

definition is_lower :: "char \<Rightarrow> bool" where
  "is_lower c = (97 \<le> code c \<and> code c \<le> 122)"

definition is_word :: "char \<Rightarrow> bool" where
  "is_word c = (is_lower c \<or> is_upper c \<or> is_digit c \<or> c = CHR ''_'')"

definition lower_char :: "char \<Rightarrow> char" where
  "lower_char c = (if is_upper c then char_of (code c + 32) else c)"

definition upper_char :: "char \<Rightarrow> char" where
  "upper_char c = (if is_lower c then char_of (code c - 32) else c)"

definition toLowerCase :: "string \<Rightarrow> string" where
  "toLowerCase s = map lower_char s"

definition trim :: "string \<Rightarrow> string" where
  "trim s = rev (dropWhile is_space (rev (dropWhile is_space s)))"

fun startsWith :: "string \<Rightarrow> string \<Rightarrow> bool" where
  "startsWith s [] = True"
| "startsWith [] (p # ps) = False"
| "startsWith (c # cs) (p # ps) = (c = p \<and> startsWith cs ps)"

fun str_includes :: "string \<Rightarrow> string \<Rightarrow> bool" where
  "str_includes [] t = startsWith [] t"
| "str_includes (c # cs) t = (startsWith (c # cs) t \<or> str_includes cs t)"

text \<open>\<open>s.split(sep)\<close> for a non-empty literal separator; \<open>cur\<close> is the piece being read, reversed.\<close>

function split_lit :: "string \<Rightarrow> string \<Rightarrow> string \<Rightarrow> string list" where
  "split_lit sep cur [] = [rev cur]"
| "split_lit sep cur (c # cs) =
     (if sep \<noteq> [] \<and> startsWith (c # cs) sep
      then rev cur # split_lit sep [] (drop (length sep - 1) cs)
      else split_lit sep (c # cur) cs)"
  by pat_completeness auto
termination
  by (relation "measure (\<lambda>(sep, cur, s). length s)") auto

definition split :: "string \<Rightarrow> string \<Rightarrow> string list" where
  "split s sep = split_lit sep [] s"

text \<open>\<open>s.split(/\s+/)\<close>: the pieces between maximal runs of white space.\<close>

function split_ws_from :: "string \<Rightarrow> string \<Rightarrow> string list" where
  "split_ws_from cur [] = [rev cur]"
| "split_ws_from cur (c # cs) =
     (if is_space c then rev cur # split_ws_from [] (dropWhile is_space cs)
      else split_ws_from (c # cur) cs)"
  by pat_completeness auto
termination
  by (relation "measure (\<lambda>(cur, s). length s)") (auto simp: length_dropWhile_le less_Suc_eq_le)

definition split_ws :: "string \<Rightarrow> string list" where
  "split_ws s = split_ws_from [] s"

text \<open>\<open>xs.indexOf(x)\<close>, with \<open>None\<close> for \<open>-1\<close>.\<close>

fun indexOf :: "'a list \<Rightarrow> 'a \<Rightarrow> nat option" where
  "indexOf [] x = None"
| "indexOf (y # ys) x = (if y = x then Some 0 else map_option Suc (indexOf ys x))"

text \<open>\<open>xs.slice(i, j)\<close> for non-negative bounds.\<close>

definition slice :: "'a list \<Rightarrow> nat \<Rightarrow> nat \<Rightarrow> 'a list" where
  "slice xs i j = take (j - i) (drop i xs)"

fun join :: "string list \<Rightarrow> string \<Rightarrow> string" where
  "join [] sep = []"
| "join [x] sep = x"
| "join (x # y # ys) sep = x @ sep @ join (y # ys) sep"

section \<open>Regular expressions\<close>

text \<open>
  The patterns of the sources are values of \<open>rx\<close>.  A position in the subject is the code
  unit before it (if any) and the text from it on.  \<open>ends\<close> lists, in the priority order of
  the backtracking matcher (greedy quantifiers, left alternative first), every position at
  which a match started at the given position can end; the head of the list is the match
  \<open>RegExp.prototype.exec\<close> reports.  The flag \<open>ci\<close> is the \<open>i\<close> flag.
\<close>

datatype rx =
    Eps
  | Lit string
  | Cls "char \<Rightarrow> bool"
  | Seq rx rx
  | Alt rx rx
  | Opt rx
  | Star rx
  | WordB
  | Bol
  | Eol

type_synonym pos = "char option \<times> string"

definition Many :: "rx \<Rightarrow> rx" where
  "Many r = Seq r (Star r)"

text \<open>\<open>r{m,n}\<close>, greedy.\<close>

fun rep :: "nat \<Rightarrow> nat \<Rightarrow> rx \<Rightarrow> rx" where
  "rep 0 0 r = Eps"
| "rep 0 (Suc n) r = Opt (Seq r (rep 0 n r))"
| "rep (Suc m) n r = Seq r (rep m (n - 1) r)"

fun seqs :: "rx list \<Rightarrow> rx" where
  "seqs [] = Eps"
| "seqs [r] = r"
| "seqs (r # rs) = Seq r (seqs rs)"

fun alts :: "rx list \<Rightarrow> rx" where
  "alts [] = Cls (\<lambda>c. False)"
| "alts [r] = r"
| "alts (r # rs) = Alt r (alts rs)"

definition same_char :: "bool \<Rightarrow> char \<Rightarrow> char \<Rightarrow> bool" where
  "same_char ci a b = (if ci then lower_char a = lower_char b else a = b)"

definition in_class :: "bool \<Rightarrow> (char \<Rightarrow> bool) \<Rightarrow> char \<Rightarrow> bool" where
  "in_class ci P c = (P c \<or> (ci \<and> (P (lower_char c) \<or> P (upper_char c))))"

fun eat_lit :: "bool \<Rightarrow> string \<Rightarrow> pos \<Rightarrow> pos list" where
  "eat_lit ci [] p = [p]"
| "eat_lit ci (w # ws) (prev, []) = []"
| "eat_lit ci (w # ws) (prev, c # cs) =
     (if same_char ci w c then eat_lit ci ws (Some c, cs) else [])"

definition word_before :: "pos \<Rightarrow> bool" where
  "word_before p = (case fst p of None \<Rightarrow> False | Some c \<Rightarrow> is_word c)"

definition word_after :: "pos \<Rightarrow> bool" where
  "word_after p = (case snd p of [] \<Rightarrow> False | c # cs \<Rightarrow> is_word c)"

text \<open>
  The iterations of a star: an iteration that consumes nothing is rejected, so at most
  \<open>length (snd p)\<close> iterations can follow one another.
\<close>

fun iterate :: "nat \<Rightarrow> (pos \<Rightarrow> pos list) \<Rightarrow> pos \<Rightarrow> pos list" where
  "iterate 0 f p = [p]"
| "iterate (Suc n) f p =
     concat (map (iterate n f) (filter (\<lambda>q. length (snd q) < length (snd p)) (f p))) @ [p]"

fun ends :: "bool \<Rightarrow> rx \<Rightarrow> pos \<Rightarrow> pos list" where
  "ends ci Eps p = [p]"
| "ends ci (Lit w) p = eat_lit ci w p"
| "ends ci (Cls P) p =
     (case snd p of [] \<Rightarrow> []
      | c # cs \<Rightarrow> if in_class ci P c then [(Some c, cs)] else [])"
| "ends ci (Seq a b) p = concat (map (ends ci b) (ends ci a p))"
| "ends ci (Alt a b) p = ends ci a p @ ends ci b p"
| "ends ci (Opt a) p = ends ci a p @ [p]"
| "ends ci (Star a) p = iterate (length (snd p)) (ends ci a) p"
| "ends ci WordB p = (if word_before p \<noteq> word_after p then [p] else [])"
| "ends ci Bol p = (if fst p = None then [p] else [])"
| "ends ci Eol p = (if snd p = [] then [p] else [])"

text \<open>The first match at or after a position: the text matched and the position after it.\<close>

fun exec_from :: "bool \<Rightarrow> rx \<Rightarrow> pos \<Rightarrow> (string \<times> pos) option" where
  "exec_from ci r (prev, []) =
     (case ends ci r (prev, []) of [] \<Rightarrow> None | q # qs \<Rightarrow> Some ([], q))"
| "exec_from ci r (prev, c # cs) =
     (case ends ci r (prev, c # cs) of
        [] \<Rightarrow> exec_from ci r (Some c, cs)
      | q # qs \<Rightarrow> Some (take (length (c # cs) - length (snd q)) (c # cs), q))"

definition rx_exec :: "bool \<Rightarrow> rx \<Rightarrow> string \<Rightarrow> string option" where
  "rx_exec ci r s = map_option fst (exec_from ci r (None, s))"

definition rx_test :: "bool \<Rightarrow> rx \<Rightarrow> string \<Rightarrow> bool" where
  "rx_test ci r s = (exec_from ci r (None, s) \<noteq> None)"

text \<open>
  \<open>s.match(r)\<close> with the \<open>g\<close> flag, for a pattern that matches no empty text: the matches
  from left to right, each search starting where the previous match ended.
\<close>

fun match_all_from :: "nat \<Rightarrow> bool \<Rightarrow> rx \<Rightarrow> pos \<Rightarrow> string list" where
  "match_all_from 0 ci r p = []"
| "match_all_from (Suc n) ci r p =
     (case exec_from ci r p of None \<Rightarrow> []
      | Some (m, q) \<Rightarrow> m # match_all_from n ci r q)"

definition match_all :: "bool \<Rightarrow> rx \<Rightarrow> string \<Rightarrow> string list" where
  "match_all ci r s = match_all_from (length s) ci r (None, s)"

definition any_char :: rx where
  "any_char = Cls (\<lambda>c. c \<noteq> CHR 0x0A \<and> c \<noteq> CHR 0x0D)"

definition one_of :: "string \<Rightarrow> rx" where
  "one_of cs = Cls (\<lambda>c. c \<in> set cs)"

definition bslash :: char where
  "bslash = CHR 0x5C"

definition dquote :: char where
  "dquote = CHR 0x22"

definition squote :: char where
  "squote = CHR 0x27"

definition newline :: char where
  "newline = CHR 0x0A"

section \<open>Prompt triage\<close>

datatype TriageLevel = Trivial | Clear | Ambiguous | CrossService | MultiStep

record TriageResult =
  level :: TriageLevel
  confidence :: rat
  reasons :: "string list"
  recommended_tools :: "string list"
  cross_service_hits :: "string list option"

text \<open>Every field of the configuration is optional.\<close>

record TriageConfig =
  alwaysCheck :: "string list option"
  skip :: "string list option"
  crossServiceKeywords :: "string list option"
  strictness :: "string option"
  relatedAliases :: "string list option"

definition no_config :: TriageConfig where
  "no_config = \<lparr>alwaysCheck = None, skip = None, crossServiceKeywords = None,
     strictness = None, relatedAliases = None\<rparr>"

definition or_empty :: "'a list option \<Rightarrow> 'a list" where
  "or_empty xs = (case xs of None \<Rightarrow> [] | Some ys \<Rightarrow> ys)"

definition TRIVIAL_COMMANDS :: "string list" where
  "TRIVIAL_COMMANDS = [''commit'', ''format'', ''lint'', ''run tests'', ''push'', ''pull'',
     ''status'', ''build'', ''test'', ''deploy'', ''start'', ''stop'', ''restart'']"

definition VAGUE_PRONOUNS :: rx where
  "VAGUE_PRONOUNS = seqs [WordB,
     alts [Lit ''it'', Lit ''them'', Lit ''the thing'', Lit ''those'', Lit ''these''], WordB]"

definition VAGUE_VERBS :: "string list" where
  "VAGUE_VERBS = [''fix'', ''update'', ''change'']"

definition CROSS_SERVICE_TERMS :: "string list" where
  "CROSS_SERVICE_TERMS = [''schema'', ''contract'', ''interface'', ''event'']"

definition path_char :: "char \<Rightarrow> bool" where
  "path_char c = (is_word c \<or> c = CHR ''.'' \<or> c = CHR ''-'' \<or> c = CHR ''/'' \<or> c = bslash)"

definition FILE_PATH_RE :: rx where
  "FILE_PATH_RE = seqs [Alt Bol (Cls (\<lambda>c. is_space c \<or> c = CHR '','' \<or> c = CHR '':'' \<or> c = CHR ''('')),
     Many (Cls path_char), Lit ''.'', rep 1 6 (Cls is_word), WordB]"

definition LINE_NUMBER_RE :: rx where
  "LINE_NUMBER_RE = Alt (seqs [WordB, Lit ''line'', Many (Cls is_space), Many (Cls is_digit)])
     (seqs [Lit '':'', Many (Cls is_digit), WordB])"

definition MULTI_STEP_SEQUENTIAL :: rx where
  "MULTI_STEP_SEQUENTIAL = seqs [WordB,
     alts [Lit ''then'', Lit ''after that'',
           seqs [Lit ''first'', WordB, Star any_char, WordB, Lit ''then''], Lit ''finally''],
     WordB]"

definition lower :: "string \<Rightarrow> string" where
  "lower s = trim (toLowerCase s)"

definition isTrivialCommand :: "string \<Rightarrow> bool" where
  "isTrivialCommand prompt =
     (let p = lower prompt
      in list_ex (\<lambda>cmd. p = cmd \<or> startsWith p (cmd @ '' '')) TRIVIAL_COMMANDS)"

text \<open>
  The second implementation of the classifier (\<open>src/lib/config.ts\<close>) has a check of its
  own for a prompt that is just a file path.
\<close>

definition isFilePath :: "string \<Rightarrow> bool" where
  "isFilePath prompt =
     (let trimmed = trim prompt;
          c1 = (\<lambda>c. is_word c \<or> c = CHR ''-'' \<or> c = CHR ''.'' \<or> c = CHR ''/'');
          sep = (\<lambda>c. c = CHR ''/'' \<or> c = bslash)
      in rx_test False (seqs [Bol, Many (Cls c1), Lit ''.'', Many (Cls is_word), Eol]) trimmed
       \<or> rx_test False (seqs [Bol, Many (Cls path_char), Cls sep, Many (Cls path_char),
                                Lit ''.'', Many (Cls is_word), Eol]) trimmed)"

definition hasFileRefs :: "string \<Rightarrow> bool" where
  "hasFileRefs prompt = rx_test False FILE_PATH_RE prompt"

definition hasLineNumbers :: "string \<Rightarrow> bool" where
  "hasLineNumbers prompt = rx_test False LINE_NUMBER_RE prompt"

definition hasVaguePronouns :: "string \<Rightarrow> bool" where
  "hasVaguePronouns prompt = rx_test True VAGUE_PRONOUNS prompt"

text \<open>Returns true when a vague verb appears without a concrete target after it.\<close>

definition hasTarget :: "string list \<Rightarrow> bool" where
  "hasTarget tail = list_ex (\<lambda>w. rx_test False (Seq (Lit ''.'') (Many (Cls is_word))) w
       \<or> length w > 6 \<or> rx_test False (Cls is_upper) w) tail"

definition hasVagueVerbs :: "string \<Rightarrow> bool" where
  "hasVagueVerbs prompt =
     (let words = split_ws (lower prompt)
      in list_ex (\<lambda>verb.
           case indexOf words verb of
             None \<Rightarrow> False
           | Some idx \<Rightarrow> \<not> hasTarget (slice words (idx + 1) (idx + 4))) VAGUE_VERBS)"

definition detectCrossService :: "string \<Rightarrow> TriageConfig \<Rightarrow> string list" where
  "detectCrossService prompt config =
     (let p = lower prompt
      in map (\<lambda>kw. ''keyword: '' @ kw)
           (filter (\<lambda>kw. str_includes p (lower kw)) (or_empty (crossServiceKeywords config)))
       @ map (\<lambda>alias. ''project: '' @ alias)
           (filter (\<lambda>alias. str_includes p (lower alias)) (or_empty (relatedAliases config)))
       @ map (\<lambda>term. ''term: '' @ term)
           (filter (\<lambda>term. str_includes p term) CROSS_SERVICE_TERMS))"

definition FILE_TOKEN_RE :: rx where
  "FILE_TOKEN_RE = seqs [Many (Cls path_char), Lit ''.'', rep 1 6 (Cls is_word)]"

definition NUMBERED_LIST_RE :: rx where
  "NUMBERED_LIST_RE = seqs [Lit [newline], Star (Cls is_space),
     Cls (\<lambda>c. 49 \<le> code c \<and> code c \<le> 57), one_of ''.)'', Cls is_space]"

definition BULLET_LIST_RE :: rx where
  "BULLET_LIST_RE = seqs [Lit [newline], Star (Cls is_space), one_of ''-*'', Cls is_space]"

definition isMultiStep :: "string \<Rightarrow> bool" where
  "isMultiStep prompt =
     (let p = lower prompt in
      if str_includes p '' and '' \<and> length (split p '' and '') > 1
         \<and> list_all (\<lambda>part. length (split_ws (trim part)) \<ge> 2) (split p '' and '')
      then True
      else if rx_test True MULTI_STEP_SEQUENTIAL prompt then True
      else if rx_test False NUMBERED_LIST_RE prompt \<or> rx_test False BULLET_LIST_RE prompt then True
      else
        (let files = match_all False FILE_TOKEN_RE prompt
         in length files > 1 \<and> length (remdups (map (\<lambda>f. hd (split f ''/'')) files)) > 1))"

definition triagePrompt :: "string \<Rightarrow> TriageConfig option \<Rightarrow> TriageResult" where
  "triagePrompt prompt config =
     (let cfg = (case config of None \<Rightarrow> no_config | Some c \<Rightarrow> c);
          len = length (trim prompt)
      in case find (\<lambda>kw. str_includes (lower prompt) (lower kw)) (or_empty (skip cfg)) of
        Some kw \<Rightarrow>
          \<lparr>level = Trivial, confidence = 95 / 100,
           reasons = [''matches skip keyword: '' @ [dquote] @ kw @ [dquote]],
           recommended_tools = [], cross_service_hits = None\<rparr>
      | None \<Rightarrow>
        if isMultiStep prompt then
          \<lparr>level = MultiStep, confidence = 85 / 100,
           reasons = [''contains multi-step indicators''],
           recommended_tools = [''clarify-intent'', ''scope-work'', ''sequence-tasks''],
           cross_service_hits = None\<rparr>
        else let csHits = detectCrossService prompt cfg in
        if length csHits > 0 then
          \<lparr>level = CrossService, confidence = 8 / 10,
           reasons = [''cross-service indicators: '' @ join csHits '', ''],
           recommended_tools = [''clarify-intent'', ''scope-work'', ''search-related-projects''],
           cross_service_hits = Some csHits\<rparr>
        else case find (\<lambda>kw. str_includes (lower prompt) (lower kw)) (or_empty (alwaysCheck cfg)) of
          Some kw \<Rightarrow>
            \<lparr>level = Ambiguous, confidence = 8 / 10,
             reasons = [''matches always_check keyword: '' @ [dquote] @ kw @ [dquote]],
             recommended_tools = [''clarify-intent'', ''scope-work''],
             cross_service_hits = None\<rparr>
        | None \<Rightarrow>
          if len < 20 \<and> isTrivialCommand prompt then
            \<lparr>level = Trivial, confidence = 9 / 10, reasons = [''short common command''],
             recommended_tools = [], cross_service_hits = None\<rparr>
          else let ambiguousReasons =
              (if len < 50 \<and> \<not> hasFileRefs prompt
               then [''short prompt without file references''] else [])
            @ (if hasVaguePronouns prompt then [''contains vague pronouns''] else [])
            @ (if hasVagueVerbs prompt
               then [''contains vague verbs without specific targets''] else [])
          in
          if length ambiguousReasons > 0 then
            \<lparr>level = Ambiguous, confidence = 7 / 10, reasons = ambiguousReasons,
             recommended_tools = [''clarify-intent'', ''scope-work''],
             cross_service_hits = None\<rparr>
          else let reasons0 =
              (if hasFileRefs prompt then [''references specific file paths''] else [])
            @ (if hasLineNumbers prompt then [''references specific line numbers''] else [])
            @ (if len > 50 then [''detailed prompt with concrete nouns''] else []);
            reasons1 = (if reasons0 = [] then [''well-formed prompt with clear intent'']
                        else reasons0);
            clearTools0 = (if hasFileRefs prompt then [''verify-files-exist''] else []);
            clearTools = (if strictness cfg = Some ''strict'' \<and> clearTools0 = []
                          then clearTools0 @ [''verify-files-exist''] else clearTools0)
          in
            \<lparr>level = Clear,
             confidence = (if strictness cfg = Some ''strict'' then 8 / 10 else 85 / 100),
             reasons = reasons1, recommended_tools = clearTools,
             cross_service_hits = None\<rparr>)"

section \<open>Session log parser\<close>

subsection \<open>JSON values and the host\<close>

text \<open>
  A parsed JSON value.  A JavaScript value that may be \<open>undefined\<close> is a \<open>json option\<close>.
  An exception thrown by the code is a value of \<open>error\<close>.
\<close>

datatype json =
    JNull
  | JBool bool
  | JNum rat
  | JStr string
  | JArr "json list"
  | JObj "(string \<times> json) list"

datatype error = TypeError | ENOENT

text \<open>
  The library functions the parser calls are parameters of the model: \<open>JSON.parse\<close>
  (\<open>None\<close> when it throws a \<open>SyntaxError\<close>), \<open>JSON.stringify\<close>, the string conversion of a
  template literal, \<open>new Date(s).getTime()\<close> (\<open>None\<close> for \<open>NaN\<close>),
  \<open>Date.prototype.toISOString\<close>, and the sequence of values \<open>randomUUID\<close> returns.
\<close>

record host =
  JSON_parse :: "string \<Rightarrow> json option"
  JSON_stringify :: "json \<Rightarrow> string"
  String_of :: "json \<Rightarrow> string"
  Date_parse :: "string \<Rightarrow> int option"
  toISOString :: "int \<Rightarrow> string"
  randomUUID :: "nat \<Rightarrow> string"

text \<open>\<open>v.k\<close> for a value \<open>v\<close> that is not \<open>null\<close>, and \<open>v?.k\<close>.\<close>

definition get :: "json \<Rightarrow> string \<Rightarrow> json option" where
  "get v k = (case v of JObj kvs \<Rightarrow> map_of kvs k | _ \<Rightarrow> None)"

definition opt_get :: "json option \<Rightarrow> string \<Rightarrow> json option" where
  "opt_get v k = (case v of None \<Rightarrow> None | Some w \<Rightarrow> get w k)"

text \<open>\<open>v ?? d\<close>\<close>

definition nullish_or :: "json option \<Rightarrow> json \<Rightarrow> json" where
  "nullish_or v d = (case v of None \<Rightarrow> d | Some JNull \<Rightarrow> d | Some w \<Rightarrow> w)"

definition truthy :: "json option \<Rightarrow> bool" where
  "truthy v = (case v of None \<Rightarrow> False | Some JNull \<Rightarrow> False | Some (JBool b) \<Rightarrow> b
     | Some (JNum n) \<Rightarrow> n \<noteq> 0 | Some (JStr s) \<Rightarrow> s \<noteq> [] | Some _ \<Rightarrow> True)"

definition template :: "host \<Rightarrow> json \<Rightarrow> string" where
  "template h v = (case v of JStr s \<Rightarrow> s | _ \<Rightarrow> String_of h v)"

text \<open>\<open>new Date(t).getTime()\<close> for a number: the time value clipped to the range of dates.\<close>

definition timeClip :: "rat \<Rightarrow> int option" where
  "timeClip t = (if \<bar>t\<bar> > 8640000000000000 then None
                 else Some (if t \<ge> 0 then \<lfloor>t\<rfloor> else \<lceil>t\<rceil>))"

definition digit_char :: "nat \<Rightarrow> char" where
  "digit_char n = char_of (48 + n)"

function show_nat :: "nat \<Rightarrow> string" where
  "show_nat n = (if n < 10 then [digit_char n] else show_nat (n div 10) @ [digit_char (n mod 10)])"
  by pat_completeness auto
termination
  by (relation "measure (\<lambda>n. n)") auto

declare show_nat.simps [simp del]

subsection \<open>Events\<close>

record TimelineEvent =
  ev_id :: string
  timestamp :: string
  type :: string
  project :: string
  project_name :: string
  branch :: json
  session_id :: json
  source_file :: string
  source_line :: nat
  content :: string
  content_preview :: string
  metadata :: string

definition CORRECTION_PATTERNS :: "rx list" where
  "CORRECTION_PATTERNS =
     [seqs [WordB, Lit ''no'', WordB], seqs [WordB, Lit ''wrong'', WordB],
      seqs [WordB, Lit ''not that'', WordB], seqs [WordB, Lit ''i meant'', WordB],
      seqs [WordB, Lit ''actually'', WordB], seqs [WordB, Lit ''instead'', WordB],
      seqs [WordB, Lit ''undo'', WordB]]"

text \<open>The filter of \<open>extractText\<close>; reading \<open>b.type\<close> of a \<open>null\<close> block throws.\<close>

fun text_blocks :: "json list \<Rightarrow> error + string list" where
  "text_blocks [] = Inr []"
| "text_blocks (b # bs) =
     (if b = JNull then Inl TypeError
      else case text_blocks bs of
             Inl e \<Rightarrow> Inl e
           | Inr ts \<Rightarrow>
               (case (get b ''type'', get b ''text'') of
                  (Some (JStr ty), Some (JStr t)) \<Rightarrow> if ty = ''text'' then Inr (t # ts) else Inr ts
                | _ \<Rightarrow> Inr ts))"

definition extractText :: "json option \<Rightarrow> error + string" where
  "extractText c =
     (case c of
        Some (JStr s) \<Rightarrow> Inr s
      | Some (JArr bs) \<Rightarrow>
          (case text_blocks bs of Inl e \<Rightarrow> Inl e | Inr ts \<Rightarrow> Inr (join ts [newline]))
      | _ \<Rightarrow> Inr [])"

fun tool_use_blocks :: "json list \<Rightarrow> error + json list" where
  "tool_use_blocks [] = Inr []"
| "tool_use_blocks (b # bs) =
     (if b = JNull then Inl TypeError
      else case tool_use_blocks bs of
             Inl e \<Rightarrow> Inl e
           | Inr ts \<Rightarrow> if get b ''type'' = Some (JStr ''tool_use'') then Inr (b # ts) else Inr ts)"

definition extractToolUseBlocks :: "json option \<Rightarrow> error + json list" where
  "extractToolUseBlocks c =
     (case c of Some (JArr bs) \<Rightarrow> tool_use_blocks bs | _ \<Rightarrow> Inr [])"

definition normalizeTimestamp :: "host \<Rightarrow> json option \<Rightarrow> string \<Rightarrow> string" where
  "normalizeTimestamp h ts fallback =
     (if \<not> truthy ts then fallback
      else case ts of
        Some (JStr s) \<Rightarrow>
          (case Date_parse h s of None \<Rightarrow> fallback | Some d \<Rightarrow> toISOString h d)
      | Some (JNum n) \<Rightarrow>
          (case timeClip (if n < 1000000000000 then n * 1000 else n) of
             None \<Rightarrow> fallback | Some d \<Rightarrow> toISOString h d)
      | _ \<Rightarrow> fallback)"

text \<open>The horizontal ellipsis U+2026, written as its three UTF-8 bytes.\<close>

definition ellipsis :: string where
  "ellipsis = [CHR 0xE2, CHR 0x80, CHR 0xA6]"

definition preview :: "string \<Rightarrow> nat \<Rightarrow> string" where
  "preview text mx =
     (let line = hd (split text [newline])
      in if length line > mx then take mx line @ ellipsis else line)"

definition isCorrection :: "string \<Rightarrow> bool" where
  "isCorrection text = list_ex (\<lambda>p. rx_test True p text) CORRECTION_PATTERNS"

text \<open>
  The fields every event of one record shares (\<open>base\<close>, with the timestamp), and \<open>makeEvent\<close>
  on them: the caller passes no \<open>content_preview\<close>, so it is \<open>preview content\<close>.
\<close>

record base =
  b_timestamp :: string
  b_project :: string
  b_project_name :: string
  b_branch :: json
  b_session_id :: json
  b_source_file :: string
  b_source_line :: nat

definition makeEvent :: "base \<Rightarrow> string \<Rightarrow> string \<Rightarrow> string \<Rightarrow> string \<Rightarrow> TimelineEvent" where
  "makeEvent b ty c md uuid =
     \<lparr>ev_id = uuid, timestamp = b_timestamp b, type = ty, project = b_project b,
      project_name = b_project_name b, branch = b_branch b, session_id = b_session_id b,
      source_file = b_source_file b, source_line = b_source_line b, content = c,
      content_preview = preview c 120, metadata = md\<rparr>"

text \<open>The events of one record draw the identifiers \<open>k\<close>, \<open>k + 1\<close>, ... of the host.\<close>

fun with_ids :: "host \<Rightarrow> nat \<Rightarrow> (string \<Rightarrow> TimelineEvent) list \<Rightarrow> TimelineEvent list" where
  "with_ids h k [] = []"
| "with_ids h k (f # fs) = f (randomUUID h k) # with_ids h (Suc k) fs"

definition tool_event :: "host \<Rightarrow> base \<Rightarrow> json \<Rightarrow> string \<Rightarrow> TimelineEvent" where
  "tool_event h b tool =
     (let name = nullish_or (get tool ''name'') (JStr ''unknown'');
          argsStr = (case get tool ''input'' of
                       Some (JStr s) \<Rightarrow> s
                     | i \<Rightarrow> JSON_stringify h (nullish_or i (JObj [])));
          isSub = (name = JStr ''Task'' \<or> name = JStr ''dispatch_agent'')
      in makeEvent b (if isSub then ''sub_agent_spawn'' else ''tool_call'')
           (template h name @ '': '' @ take 100 argsStr)
           (JSON_stringify h (JObj [(''tool'', name)])))"

definition STDERR_RE :: rx where
  "STDERR_RE = Lit ''stderr''"

definition COMPACT_RE :: rx where
  "COMPACT_RE = Lit ''compact''"

definition processRecord ::
  "host \<Rightarrow> json \<Rightarrow> string \<Rightarrow> string \<Rightarrow> string \<Rightarrow> json \<Rightarrow> json \<Rightarrow> string \<Rightarrow> nat \<Rightarrow> string \<Rightarrow> nat
     \<Rightarrow> error + TimelineEvent list" where
  "processRecord h obj filePath proj projectName br sessionId fallbackTs lineNum lastType k =
     (if obj = JNull then Inl TypeError
      else
        let ts = normalizeTimestamp h (get obj ''timestamp'') fallbackTs;
            b = \<lparr>b_timestamp = ts, b_project = proj, b_project_name = projectName,
                 b_branch = br, b_session_id = sessionId, b_source_file = filePath,
                 b_source_line = lineNum\<rparr>
        in
        if get obj ''type'' = Some (JStr ''user'') then
          (case extractText (opt_get (get obj ''message'') ''content'') of
             Inl e \<Rightarrow> Inl e
           | Inr text \<Rightarrow>
               if text = [] then Inr []
               else
                 let isCorr = (lastType = ''assistant'' \<and> isCorrection text)
                 in Inr (with_ids h k
                      [makeEvent b (if isCorr then ''correction'' else ''prompt'') text ''{}'']))
        else if get obj ''type'' = Some (JStr ''assistant'') then
          (let c = opt_get (get obj ''message'') ''content'' in
           case extractText c of
             Inl e \<Rightarrow> Inl e
           | Inr text \<Rightarrow>
               (case extractToolUseBlocks c of
                  Inl e \<Rightarrow> Inl e
                | Inr tools \<Rightarrow>
                    Inr (with_ids h k
                      ((if text \<noteq> []
                        then [makeEvent b ''assistant'' text
                                (JSON_stringify h
                                   (JObj [(''model'', nullish_or (get obj ''model'') (JStr []))]))]
                        else [])
                       @ map (tool_event h b) tools))))
        else if get obj ''type'' = Some (JStr ''tool_result'') then
          (let isErr = (get obj ''is_error'' = Some (JBool True)
                        \<or> (case get obj ''content'' of
                              Some (JStr s) \<Rightarrow> rx_test True STDERR_RE s | _ \<Rightarrow> False))
           in if isErr then
                (case extractText (get obj ''content'') of
                   Inl e \<Rightarrow> Inl e
                 | Inr t \<Rightarrow>
                     let text = (if t \<noteq> [] then t
                                 else take 200 (JSON_stringify h
                                        (nullish_or (get obj ''content'') (JStr []))))
                     in Inr (with_ids h k
                          [makeEvent b ''error'' text
                             (JSON_stringify h
                                (JObj [(''tool_use_id'',
                                        nullish_or (get obj ''tool_use_id'') (JStr []))]))]))
              else Inr [])
        else if get obj ''type'' = Some (JStr ''system'') then
          (case extractText
                  (Some (nullish_or (opt_get (get obj ''message'') ''content'')
                           (nullish_or (get obj ''content'') (JStr [])))) of
             Inl e \<Rightarrow> Inl e
           | Inr text \<Rightarrow>
               if rx_test True COMPACT_RE text \<or> get obj ''subtype'' = Some (JStr ''compaction'')
               then Inr (with_ids h k
                      [makeEvent b ''compaction''
                         (if text \<noteq> [] then text else ''context compacted'') ''{}''])
               else Inr [])
        else Inr [])"

subsection \<open>The line loop\<close>

text \<open>\<open>path.basename(p, ext)\<close>\<close>

definition basename :: "string \<Rightarrow> string \<Rightarrow> string" where
  "basename p ext =
     (let q = rev (dropWhile (\<lambda>c. c = CHR ''/'') (rev p));
          b = rev (takeWhile (\<lambda>c. c \<noteq> CHR ''/'') (rev q))
      in if length ext < length b \<and> drop (length b - length ext) b = ext
         then take (length b - length ext) b else b)"

text \<open>
  The variables of the loop of \<open>parseLinesSync\<close>, and what it wrote to the error stream.
\<close>

record pstate =
  st_events :: "TimelineEvent list"
  st_branch :: json
  st_sessionId :: json
  st_lastType :: string
  st_stderr :: "string list"

definition init_pstate :: "string \<Rightarrow> pstate" where
  "init_pstate filePath =
     \<lparr>st_events = [], st_branch = JStr [], st_sessionId = JStr (basename filePath ''.jsonl''),
      st_lastType = [], st_stderr = []\<rparr>"

text \<open>One iteration of the loop, on the line with index \<open>i\<close>.\<close>

definition parse_line ::
  "host \<Rightarrow> string \<Rightarrow> string \<Rightarrow> string \<Rightarrow> string \<Rightarrow> nat \<Rightarrow> string \<Rightarrow> pstate \<Rightarrow> error + pstate" where
  "parse_line h filePath proj projectName fallbackTs i raw st =
     (let line = trim raw in
      if line = [] then Inr st
      else case JSON_parse h line of
        None \<Rightarrow>
          Inr (st\<lparr>st_stderr := st_stderr st @
                 [''[session-parser] malformed line '' @ show_nat (i + 1) @ '' in ''
                    @ filePath @ [newline]]\<rparr>)
      | Some obj \<Rightarrow>
          if obj = JNull then Inl TypeError
          else if get obj ''type'' = Some (JStr ''summary'') then
            Inr (st\<lparr>st_branch := nullish_or (get obj ''gitBranch'') (JStr []),
                    st_sessionId := (if truthy (get obj ''sessionId'')
                                     then nullish_or (get obj ''sessionId'') (JStr [])
                                     else st_sessionId st)\<rparr>)
          else
            (case processRecord h obj filePath proj projectName (st_branch st) (st_sessionId st)
                    fallbackTs (i + 1) (st_lastType st) (length (st_events st)) of
               Inl e \<Rightarrow> Inl e
             | Inr evts \<Rightarrow>
                 Inr (st\<lparr>st_lastType :=
                           (if get obj ''type'' = Some (JStr ''user'') then ''user''
                            else if get obj ''type'' = Some (JStr ''assistant'') then ''assistant''
                            else st_lastType st),
                         st_events := st_events st @ evts\<rparr>)))"

fun parse_loop ::
  "host \<Rightarrow> string \<Rightarrow> string \<Rightarrow> string \<Rightarrow> string \<Rightarrow> nat \<Rightarrow> string list \<Rightarrow> pstate \<Rightarrow> error + pstate" where
  "parse_loop h filePath proj projectName fallbackTs i [] st = Inr st"
| "parse_loop h filePath proj projectName fallbackTs i (l # ls) st =
     (case parse_line h filePath proj projectName fallbackTs i l st of
        Inl e \<Rightarrow> Inl e
      | Inr st' \<Rightarrow> parse_loop h filePath proj projectName fallbackTs (Suc i) ls st')"

definition parseLinesSync ::
  "host \<Rightarrow> string list \<Rightarrow> string \<Rightarrow> string \<Rightarrow> string \<Rightarrow> string \<Rightarrow> error + TimelineEvent list" where
  "parseLinesSync h lines filePath proj projectName fallbackTs =
     (case parse_loop h filePath proj projectName fallbackTs 0 lines (init_pstate filePath) of
        Inl e \<Rightarrow> Inl e
      | Inr st \<Rightarrow> Inr (st_events st))"

text \<open>
  The file system: a path names a regular file or nothing.  \<open>statSync\<close> on a path that
  names nothing throws \<open>ENOENT\<close>.  In \<open>parseSession\<close> the test of the size against the
  threshold guards an empty block, so the size plays no part.
\<close>

record file_entry =
  mtime :: int
  size_bytes :: nat
  contents :: string

type_synonym filesystem = "string \<Rightarrow> file_entry option"

definition statSync :: "filesystem \<Rightarrow> string \<Rightarrow> error + file_entry" where
  "statSync fs p = (case fs p of None \<Rightarrow> Inl ENOENT | Some f \<Rightarrow> Inr f)"

definition LARGE_FILE_THRESHOLD :: nat where
  "LARGE_FILE_THRESHOLD = 10 * 1024 * 1024"

definition parseSession ::
  "filesystem \<Rightarrow> host \<Rightarrow> string \<Rightarrow> string \<Rightarrow> string \<Rightarrow> error + TimelineEvent list" where
  "parseSession fs h filePath proj projectName =
     (case statSync fs filePath of
        Inl e \<Rightarrow> Inl e
      | Inr stat \<Rightarrow>
          let fallbackTs = toISOString h (mtime stat);
              lines = split (contents stat) [newline]
          in parseLinesSync h lines filePath proj projectName fallbackTs)"

section \<open>Scorecard engine\<close>

text \<open>
  JavaScript numbers are modelled as exact rationals (counts as naturals, rounded scores as
  integers): a quotient is the exact quotient, not its nearest double.  The one place where
  the code can divide zero by zero is written out.
\<close>

subsection \<open>Grading\<close>

text \<open>\<open>Math.round\<close>: the nearest integer, a half rounded up.\<close>

definition js_round :: "rat \<Rightarrow> int" where
  "js_round x = \<lfloor>x + 1 / 2\<rfloor>"

record example_lists =
  good :: "string list option"
  bad :: "string list option"

record CategoryScore =
  name :: string
  score :: int
  grade :: string
  evidence :: string
  examples :: "example_lists option"

definition letterGrade :: "int \<Rightarrow> string" where
  "letterGrade s =
     (if s \<ge> 95 then ''A+''
      else if s \<ge> 90 then ''A''
      else if s \<ge> 85 then ''A-''
      else if s \<ge> 80 then ''B+''
      else if s \<ge> 75 then ''B''
      else if s \<ge> 70 then ''B-''
      else if s \<ge> 65 then ''C+''
      else if s \<ge> 60 then ''C''
      else if s \<ge> 55 then ''C-''
      else if s \<ge> 50 then ''D''
      else ''F'')"

definition clamp :: "rat \<Rightarrow> int" where
  "clamp v = max 0 (min 100 (js_round v))"

subsection \<open>Helpers\<close>

definition slash_path_char :: "char \<Rightarrow> bool" where
  "slash_path_char c = (is_word c \<or> c = CHR ''.'' \<or> c = CHR ''/'' \<or> c = CHR ''-'')"

definition PATH_RE :: rx where
  "PATH_RE = Alt (seqs [Lit ''/'', Many (Cls slash_path_char), Lit ''.'', rep 1 6 (Cls is_word)])
                 (seqs [WordB, Many (Cls is_word), Lit ''.'', rep 2 6 (Cls is_word), WordB])"

definition FILE_EXT_RE :: rx where
  "FILE_EXT_RE = seqs [Lit ''.'', WordB,
     alts (map Lit [''ts'', ''tsx'', ''js'', ''jsx'', ''py'', ''rs'', ''go'', ''rb'', ''java'', ''c'',
                    ''cpp'', ''h'', ''css'', ''scss'', ''html'', ''json'', ''yaml'', ''yml'', ''toml'',
                    ''md'', ''sql'', ''sh'']),
     WordB]"

record ParsedSession =
  ps_id :: json
  events :: "TimelineEvent list"
  userMessages :: "TimelineEvent list"
  assistantMessages :: "TimelineEvent list"
  toolCalls :: "TimelineEvent list"
  corrections :: "TimelineEvent list"
  compactions :: "TimelineEvent list"
  commits :: "TimelineEvent list"
  subAgentSpawns :: "TimelineEvent list"
  durationMinutes :: rat

definition of_type :: "string \<Rightarrow> TimelineEvent list \<Rightarrow> TimelineEvent list" where
  "of_type ty evs = filter (\<lambda>e. type e = ty) evs"

definition classifyEvents :: "host \<Rightarrow> TimelineEvent list \<Rightarrow> ParsedSession" where
  "classifyEvents h evs =
     \<lparr>ps_id = (case evs of [] \<Rightarrow> JStr ''unknown''
                | e # es \<Rightarrow> nullish_or (Some (session_id e)) (JStr ''unknown'')),
      events = evs,
      userMessages = of_type ''user_prompt'' evs,
      assistantMessages = of_type ''assistant_response'' evs,
      toolCalls = of_type ''tool_call'' evs,
      corrections = of_type ''correction'' evs,
      compactions = of_type ''compaction'' evs,
      commits = of_type ''git_commit'' evs,
      subAgentSpawns = of_type ''sub_agent_spawn'' evs,
      durationMinutes =
        (if length evs \<ge> 2 then
           (case (Date_parse h (timestamp (hd evs)), Date_parse h (timestamp (last evs))) of
              (Some first, Some lst) \<Rightarrow> of_int (lst - first) / 60000
            | _ \<Rightarrow> 0)
         else 0)\<rparr>"

definition hasFileRef :: "string \<Rightarrow> bool" where
  "hasFileRef text = (rx_test False PATH_RE text \<or> rx_test False FILE_EXT_RE text)"

definition pct :: "nat \<Rightarrow> nat \<Rightarrow> int" where
  "pct num den = (if den = 0 then 100 else js_round (of_nat num / of_nat den * 100))"

text \<open>
  \<open>x.toFixed(d)\<close> for a number that is not negative: the nearest decimal with \<open>d\<close> digits
  after the point, the larger one in a tie.
\<close>

definition toFixed :: "rat \<Rightarrow> nat \<Rightarrow> string" where
  "toFixed x d =
     (let n = nat \<lfloor>x * 10 ^ d + 1 / 2\<rfloor>;
          frac = show_nat (n mod 10 ^ d)
      in if d = 0 then show_nat n
         else show_nat (n div 10 ^ d) @ ''.'' @ replicate (d - length frac) CHR ''0'' @ frac)"

text \<open>The sum of a count over the sessions.\<close>

definition total :: "('a \<Rightarrow> nat) \<Rightarrow> 'a list \<Rightarrow> nat" where
  "total f xs = sum_list (map f xs)"

definition count :: "('a \<Rightarrow> bool) \<Rightarrow> 'a list \<Rightarrow> nat" where
  "count P xs = length (filter P xs)"

subsection \<open>Scoring functions\<close>

definition scorePlans :: "ParsedSession list \<Rightarrow> CategoryScore" where
  "scorePlans sessions =
     (if length sessions = 0
      then \<lparr>name = ''Plans'', score = 75, grade = ''B'', evidence = ''No sessions to analyze'',
            examples = None\<rparr>
      else
        let planned = count (\<lambda>s. list_ex (\<lambda>m. length (content m) > 100 \<and> hasFileRef (content m))
                                    (take 3 (userMessages s))) sessions;
            sc = clamp (of_int (pct planned (length sessions)))
        in \<lparr>name = ''Plans'', score = sc, grade = letterGrade sc,
            evidence = show_nat planned @ ''/'' @ show_nat (length sessions)
              @ '' sessions began with file-specific planning prompts (>100 chars with file references).'',
            examples = None\<rparr>)"

definition scoreClarification :: "ParsedSession list \<Rightarrow> CategoryScore" where
  "scoreClarification sessions =
     (let specific = total (\<lambda>s. count (\<lambda>m. hasFileRef (content m)) (userMessages s)) sessions;
          totl = total (\<lambda>s. length (userMessages s)) sessions;
          sc = clamp (of_int (pct specific totl))
      in \<lparr>name = ''Clarification'', score = sc, grade = letterGrade sc,
          evidence = show_nat specific @ ''/'' @ show_nat totl
            @ '' user prompts contained file paths or specific identifiers.'',
          examples = None\<rparr>)"

definition scoreDelegation :: "ParsedSession list \<Rightarrow> CategoryScore" where
  "scoreDelegation sessions =
     (let totl = total (\<lambda>s. length (subAgentSpawns s)) sessions;
          quality = total (\<lambda>s. count (\<lambda>e. length (content e) > 200) (subAgentSpawns s)) sessions
      in if totl = 0
         then \<lparr>name = ''Delegation'', score = 75, grade = ''B'',
               evidence = ''No sub-agent spawns detected. Default score.'', examples = None\<rparr>
         else
           let sc = clamp (of_int (pct quality totl))
           in \<lparr>name = ''Delegation'', score = sc, grade = letterGrade sc,
               evidence = show_nat quality @ ''/'' @ show_nat totl
                 @ '' sub-agent tasks had detailed descriptions (>200 chars).'',
               examples = None\<rparr>)"

text \<open>
  The counters and example lists of \<open>scoreFollowUpSpecificity\<close>, and its inner loop: \<open>earlier\<close>
  holds the events that precede the current one, the latest first.
\<close>

record followup_acc =
  followUps :: nat
  specific :: nat
  goodExamples :: "string list"
  badExamples :: "string list"

definition followup_event :: "TimelineEvent list \<Rightarrow> TimelineEvent \<Rightarrow> followup_acc \<Rightarrow> followup_acc" where
  "followup_event earlier ev acc =
     (if type ev \<noteq> ''user_prompt'' then acc
      else case find (\<lambda>e. type e = ''assistant_response'' \<or> type e = ''user_prompt'') earlier of
        None \<Rightarrow> acc
      | Some prev \<Rightarrow>
          if type prev \<noteq> ''assistant_response'' then acc
          else
            let acc1 = acc\<lparr>followUps := followUps acc + 1\<rparr>
            in if hasFileRef (content ev) \<or> length (content ev) \<ge> 50
               then (let acc2 = acc1\<lparr>specific := specific acc1 + 1\<rparr>
                     in if length (goodExamples acc2) < 3 \<and> hasFileRef (content ev)
                        then acc2\<lparr>goodExamples := goodExamples acc2 @ [take 120 (content ev)]\<rparr>
                        else acc2)
               else (if length (badExamples acc1) < 3
                     then acc1\<lparr>badExamples := badExamples acc1 @ [take 80 (content ev)]\<rparr>
                     else acc1))"

fun followup_events :: "TimelineEvent list \<Rightarrow> TimelineEvent list \<Rightarrow> followup_acc \<Rightarrow> followup_acc" where
  "followup_events earlier [] acc = acc"
| "followup_events earlier (ev # rest) acc =
     followup_events (ev # earlier) rest (followup_event earlier ev acc)"

fun followup_sessions :: "ParsedSession list \<Rightarrow> followup_acc \<Rightarrow> followup_acc" where
  "followup_sessions [] acc = acc"
| "followup_sessions (s # ss) acc = followup_sessions ss (followup_events [] (events s) acc)"

definition scoreFollowUpSpecificity :: "ParsedSession list \<Rightarrow> CategoryScore" where
  "scoreFollowUpSpecificity sessions =
     (let acc = followup_sessions sessions
                  \<lparr>followUps = 0, specific = 0, goodExamples = [], badExamples = []\<rparr>;
          sc = clamp (of_int (pct (specific acc) (followUps acc)))
      in \<lparr>name = ''Follow-up Specificity'', score = sc, grade = letterGrade sc,
          evidence = show_nat (specific acc) @ ''/'' @ show_nat (followUps acc)
            @ '' follow-up prompts had specific file references or sufficient detail.'',
          examples = Some \<lparr>good = (if goodExamples acc \<noteq> [] then Some (goodExamples acc) else None),
                           bad = (if badExamples acc \<noteq> [] then Some (badExamples acc) else None)\<rparr>\<rparr>)"

text \<open>
  \<open>s.match(r)\<close> for a pattern \<open>r = p(g)\<close> that ends with its one capturing group: the text
  the group captured in the first match.
\<close>

definition capture_at :: "bool \<Rightarrow> rx \<Rightarrow> rx \<Rightarrow> pos \<Rightarrow> string option" where
  "capture_at ci p g q =
     (case filter (\<lambda>q'. ends ci g q' \<noteq> []) (ends ci p q) of
        [] \<Rightarrow> None
      | q' # qs \<Rightarrow> Some (take (length (snd q') - length (snd (hd (ends ci g q')))) (snd q')))"

fun capture_from :: "bool \<Rightarrow> rx \<Rightarrow> rx \<Rightarrow> pos \<Rightarrow> string option" where
  "capture_from ci p g (prev, []) = capture_at ci p g (prev, [])"
| "capture_from ci p g (prev, c # cs) =
     (case capture_at ci p g (prev, c # cs) of
        None \<Rightarrow> capture_from ci p g (Some c, cs)
      | Some m \<Rightarrow> Some m)"

definition rx_capture :: "bool \<Rightarrow> rx \<Rightarrow> rx \<Rightarrow> string \<Rightarrow> string option" where
  "rx_capture ci p g s = capture_from ci p g (None, s)"

definition is_quote :: "char \<Rightarrow> bool" where
  "is_quote c = (c = dquote \<or> c = squote)"

definition TOOL_PATH_PREFIX :: rx where
  "TOOL_PATH_PREFIX = seqs [Alt (Lit ''file_path'') (Lit ''path''), Opt (Cls is_quote),
     Star (Cls is_space), one_of '':='', Star (Cls is_space), Cls is_quote]"

definition TOOL_PATH_GROUP :: rx where
  "TOOL_PATH_GROUP = Many (Cls (\<lambda>c. \<not> is_quote c))"

definition session_files :: "ParsedSession \<Rightarrow> string list" where
  "session_files s =
     remdups (concat (map (\<lambda>tc. case rx_capture False TOOL_PATH_PREFIX TOOL_PATH_GROUP (content tc) of
                                  None \<Rightarrow> [] | Some f \<Rightarrow> [f]) (toolCalls s)))"

definition scoreTokenEfficiency :: "ParsedSession list \<Rightarrow> CategoryScore" where
  "scoreTokenEfficiency sessions =
     (let totalCalls = total (\<lambda>s. length (toolCalls s)) sessions;
          totalFiles = total (\<lambda>s. if length (session_files s) = 0 then 1
                                   else length (session_files s)) sessions;
          \<comment> \<open>\<open>totalCalls / totalFiles\<close>; with no session it is \<open>0 / 0\<close>, that is \<open>NaN\<close>, and
              every comparison with \<open>NaN\<close> is false\<close>
          ratio = (if totalFiles = 0 then None
                   else Some (of_nat totalCalls / of_nat totalFiles :: rat));
          score0 = (case ratio of
                      None \<Rightarrow> 40
                    | Some r \<Rightarrow> if r \<le> 5 then 100 else if r \<le> 10 then 90
                               else if r \<le> 20 then 75 else if r \<le> 40 then 60 else (40 :: int));
          bloated = count (\<lambda>s. length (toolCalls s) > 200) sessions;
          score1 = (if bloated > 0 then clamp (of_int score0 - of_nat bloated * 10) else score0)
      in \<lparr>name = ''Token Efficiency'', score = clamp (of_int score1),
          grade = letterGrade (clamp (of_int score1)),
          evidence = show_nat totalCalls @ '' tool calls across '' @ show_nat totalFiles
            @ '' unique files (ratio: ''
            @ (case ratio of None \<Rightarrow> ''NaN'' | Some r \<Rightarrow> toFixed r 1)
            @ ''). '' @ show_nat bloated @ '' session(s) exceeded 200 tool calls.'',
          examples = None\<rparr>)"

definition AREA_RE :: rx where
  "AREA_RE = Seq (Lit ''/'') (Many (Cls slash_path_char))"

definition area_of :: "string \<Rightarrow> string" where
  "area_of text =
     (case rx_exec False AREA_RE text of
        None \<Rightarrow> []
      | Some m \<Rightarrow> join (butlast (split m ''/'')) ''/'')"

text \<open>The topic switches within one session; \<open>lastArea\<close> is the loop's variable.\<close>

fun switches :: "string \<Rightarrow> TimelineEvent list \<Rightarrow> nat" where
  "switches lastArea [] = 0"
| "switches lastArea (m # ms) =
     (let area = area_of (content m)
      in (if area \<noteq> [] \<and> lastArea \<noteq> [] \<and> area \<noteq> lastArea then 1 else 0)
         + switches (if area \<noteq> [] then area else lastArea) ms)"

definition scoreSequencing :: "ParsedSession list \<Rightarrow> CategoryScore" where
  "scoreSequencing sessions =
     (let totalSwitches = total (\<lambda>s. switches [] (userMessages s)) sessions;
          totalPrompts = total (\<lambda>s. length (userMessages s)) sessions;
          switchRate = (if totalPrompts > 0 then of_nat totalSwitches / of_nat totalPrompts
                        else (0 :: rat));
          score0 = (if switchRate \<le> 5 / 100 then 100 else if switchRate \<le> 1 / 10 then 90
                    else if switchRate \<le> 2 / 10 then 75 else if switchRate \<le> 35 / 100 then 60
                    else (45 :: int))
      in \<lparr>name = ''Sequencing'', score = clamp (of_int score0),
          grade = letterGrade (clamp (of_int score0)),
          evidence = show_nat totalSwitches @ '' topic switches across '' @ show_nat totalPrompts
            @ '' prompts ('' @ toFixed (switchRate * 100) 0 @ ''% switch rate).'',
          examples = None\<rparr>)"

text \<open>
  \<open>s.events.slice(Math.max(0, cIdx - 10), cIdx)\<close> where \<open>cIdx = s.events.indexOf(c)\<close>: when
  the event is not among the events, \<open>cIdx\<close> is \<open>-1\<close> and the slice is all but the last.
  \<open>indexOf\<close> finds the event object itself; the model finds the first event equal to it,
  which is the same event when the identifiers of the events differ.
\<close>

definition nearby_before :: "TimelineEvent list \<Rightarrow> TimelineEvent \<Rightarrow> TimelineEvent list" where
  "nearby_before evs c =
     (case indexOf evs c of None \<Rightarrow> butlast evs | Some cIdx \<Rightarrow> slice evs (cIdx - 10) cIdx)"

text \<open>The em dash U+2014, written as its three UTF-8 bytes.\<close>

definition em_dash :: string where
  "em_dash = [CHR 0xE2, CHR 0x80, CHR 0x94]"

definition scoreCompactionManagement :: "ParsedSession list \<Rightarrow> CategoryScore" where
  "scoreCompactionManagement sessions =
     (let totalCompactions = total (\<lambda>s. length (compactions s)) sessions;
          covered = total (\<lambda>s. count (\<lambda>c. list_ex (\<lambda>e. type e = ''git_commit'')
                                             (nearby_before (events s) c)) (compactions s)) sessions
      in if totalCompactions = 0
         then \<lparr>name = ''Compaction Management'', score = 100, grade = ''A+'',
               evidence = ''No compactions needed '' @ em_dash @ '' sessions stayed manageable.'',
               examples = None\<rparr>
         else
           let sc = clamp (of_int (pct covered totalCompactions))
           in \<lparr>name = ''Compaction Management'', score = sc, grade = letterGrade sc,
               evidence = show_nat covered @ ''/'' @ show_nat totalCompactions
                 @ '' compactions were preceded by a commit within 10 messages.'',
               examples = None\<rparr>)"

text \<open>What one session adds to \<open>good\<close> in \<open>scoreSessionLifecycle\<close>.\<close>

definition lifecycle_credit :: "ParsedSession \<Rightarrow> rat" where
  "lifecycle_credit s =
     (if durationMinutes s \<le> 0 then 1
      else if durationMinutes s > 180 \<and> length (commits s) = 0 then 0
      else
        let commitInterval = (if length (commits s) > 0
                              then durationMinutes s / of_nat (length (commits s))
                              else durationMinutes s)
        in if commitInterval \<le> 30 then 1 else if commitInterval \<le> 60 then 1 / 2 else 0)"

definition scoreSessionLifecycle :: "ParsedSession list \<Rightarrow> CategoryScore" where
  "scoreSessionLifecycle sessions =
     (if length sessions = 0
      then \<lparr>name = ''Session Lifecycle'', score = 75, grade = ''B'', evidence = ''No sessions.'',
            examples = None\<rparr>
      else
        let good = sum_list (map lifecycle_credit sessions);
            sc = clamp (of_int (pct (nat (js_round good)) (length sessions)))
        in \<lparr>name = ''Session Lifecycle'', score = sc, grade = letterGrade sc,
            evidence = show_nat (nat (js_round good)) @ ''/'' @ show_nat (length sessions)
              @ '' sessions had healthy commit frequency (every 15-30 min).'',
            examples = None\<rparr>)"

text \<open>
  \<open>s.events.slice(cIdx + 1, cIdx + 3)\<close>; for an event that is not among the events this is
  \<open>slice(0, 2)\<close>.
\<close>

definition soon_after :: "TimelineEvent list \<Rightarrow> TimelineEvent \<Rightarrow> TimelineEvent list" where
  "soon_after evs c =
     (case indexOf evs c of None \<Rightarrow> slice evs 0 2 | Some cIdx \<Rightarrow> slice evs (cIdx + 1) (cIdx + 3))"

definition scoreErrorRecovery :: "ParsedSession list \<Rightarrow> CategoryScore" where
  "scoreErrorRecovery sessions =
     (let totalMessages = total (\<lambda>s. length (events s)) sessions;
          totalCorrections = total (\<lambda>s. length (corrections s)) sessions;
          fastRecoveries =
            total (\<lambda>s. count (\<lambda>c. list_ex (\<lambda>e. type e = ''tool_call'' \<or> type e = ''assistant_response'')
                                      (soon_after (events s) c)) (corrections s)) sessions
      in if totalCorrections = 0
         then \<lparr>name = ''Error Recovery'', score = 95, grade = ''A'',
               evidence = ''No corrections needed.'', examples = None\<rparr>
         else
           let correctionRate = (if totalMessages > 0
                                 then of_nat totalCorrections / of_nat totalMessages else (0 :: rat));
               score0 = clamp (100 - correctionRate * 500);
               recoveryBonus = of_int (pct fastRecoveries totalCorrections) * (2 / 10);
               sc = (if totalCorrections > 0 then clamp (of_int score0 + recoveryBonus) else score0)
           in \<lparr>name = ''Error Recovery'', score = sc, grade = letterGrade sc,
               evidence = show_nat totalCorrections @ '' corrections (''
                 @ toFixed (correctionRate * 100) 1 @ ''% of messages). ''
                 @ show_nat fastRecoveries @ '' recovered within 2 messages.'',
               examples = None\<rparr>)"

definition scoreWorkspaceHygiene :: "ParsedSession list \<Rightarrow> CategoryScore" where
  "scoreWorkspaceHygiene sessions =
     (let bonus = count (\<lambda>s. let allContent = join (map content (events s)) '' ''
                             in rx_test False (Lit ''.claude/'') allContent
                                \<or> rx_test False (Lit ''CLAUDE.md'') allContent) sessions;
          sc = clamp (75 + (if bonus > 0 then of_nat (min (bonus * 5) 20) else 0))
      in \<lparr>name = ''Workspace Hygiene'', score = sc, grade = letterGrade sc,
          evidence = ''Default baseline 75. '' @ show_nat bonus
            @ '' session(s) referenced .claude/ workspace docs (+bonus).'',
          examples = None\<rparr>)"

definition CONTEXT_RE :: rx where
  "CONTEXT_RE = alts [Lit ''CLAUDE.md'', Lit ''.claude/'', Lit ''checkpoint'', Lit ''context'',
     Lit ''README'']"

definition scoreCrossSessionContinuity :: "ParsedSession list \<Rightarrow> CategoryScore" where
  "scoreCrossSessionContinuity sessions =
     (if length sessions = 0
      then \<lparr>name = ''Cross-Session Continuity'', score = 75, grade = ''B'',
            evidence = ''No sessions.'', examples = None\<rparr>
      else
        let good = count (\<lambda>s. list_ex (\<lambda>tc. rx_test True CONTEXT_RE (content tc))
                                 (take 3 (toolCalls s))) sessions;
            sc = clamp (of_int (pct good (length sessions)))
        in \<lparr>name = ''Cross-Session Continuity'', score = sc, grade = letterGrade sc,
            evidence = show_nat good @ ''/'' @ show_nat (length sessions)
              @ '' sessions started by reading project context docs.'',
            examples = None\<rparr>)"

definition VERIFY_RE :: rx where
  "VERIFY_RE = alts [Lit ''test'', Lit ''build'', Lit ''lint'', Lit ''check'', Lit ''verify'',
     Lit ''jest'', Lit ''vitest'', Lit ''pytest'', seqs [Lit ''cargo'', any_char, Lit ''test'']]"

definition scoreVerification :: "ParsedSession list \<Rightarrow> CategoryScore" where
  "scoreVerification sessions =
     (if length sessions = 0
      then \<lparr>name = ''Verification'', score = 75, grade = ''B'', evidence = ''No sessions.'',
            examples = None\<rparr>
      else
        let verified = count (\<lambda>s.
              let totalEvents = length (events s);
                  tail = drop (nat \<lfloor>of_nat totalEvents * (9 / 10 :: rat)\<rfloor>) (events s)
              in list_ex (\<lambda>e. type e = ''tool_call'' \<and> rx_test True VERIFY_RE (content e)) tail)
              sessions;
            sc = clamp (of_int (pct verified (length sessions)))
        in \<lparr>name = ''Verification'', score = sc, grade = letterGrade sc,
            evidence = show_nat verified @ ''/'' @ show_nat (length sessions)
              @ '' sessions ran tests/builds in the final 10% of events.'',
            examples = None\<rparr>)"

subsection \<open>Main scoring\<close>

record highlights_pair =
  best :: CategoryScore
  worst :: CategoryScore

record Scorecard =
  sc_project :: string
  period :: string
  date :: string
  overall :: int
  overallGrade :: string
  categories :: "CategoryScore list"
  highlights :: highlights_pair

text \<open>
  \<open>Array.prototype.sort\<close> with a comparison function is stable: the result is that of
  inserting the elements, from the last to the first, each in front of the first element it does
  not have to follow.
\<close>

fun insort_cmp :: "('a \<Rightarrow> 'a \<Rightarrow> int) \<Rightarrow> 'a \<Rightarrow> 'a list \<Rightarrow> 'a list" where
  "insort_cmp cmp x [] = [x]"
| "insort_cmp cmp x (y # ys) = (if cmp x y \<le> 0 then x # y # ys else y # insort_cmp cmp x ys)"

definition sort_cmp :: "('a \<Rightarrow> 'a \<Rightarrow> int) \<Rightarrow> 'a list \<Rightarrow> 'a list" where
  "sort_cmp cmp xs = foldr (insort_cmp cmp) xs []"

definition all_categories :: "ParsedSession list \<Rightarrow> CategoryScore list" where
  "all_categories sessions =
     [scorePlans sessions,
      scoreClarification sessions,
      scoreDelegation sessions,
      scoreFollowUpSpecificity sessions,
      scoreTokenEfficiency sessions,
      scoreSequencing sessions,
      scoreCompactionManagement sessions,
      scoreSessionLifecycle sessions,
      scoreErrorRecovery sessions,
      scoreWorkspaceHygiene sessions,
      scoreCrossSessionContinuity sessions,
      scoreVerification sessions]"

text \<open>\<open>now\<close> is \<open>new Date().toISOString()\<close> at the time of the call.\<close>

definition computeScorecard :: "string \<Rightarrow> ParsedSession list \<Rightarrow> string \<Rightarrow> string \<Rightarrow> Scorecard" where
  "computeScorecard now sessions proj per =
     (let cats = all_categories sessions;
          ovr = clamp (of_int (js_round (of_int (sum_list (map score cats)) / of_nat (length cats))));
          sorted = sort_cmp (\<lambda>a b. score b - score a) cats
      in \<lparr>sc_project = proj, period = per, date = take 10 now, overall = ovr,
          overallGrade = letterGrade ovr, categories = cats,
          highlights = \<lparr>best = hd sorted, worst = last sorted\<rparr>\<rparr>)"

subsection \<open>Historical baseline\<close>











section \<open>Vocabulary of the statements\<close>

text \<open>
  The record a line holds, if it is not blank and parses; the turn (\<open>user\<close> or \<open>assistant\<close>)
  of a line; and the most recent turn among lines given latest first, in the words of the
  specification: the type of the most recently seen user or assistant record, empty when
  there is none.
\<close>

definition record_of :: "host \<Rightarrow> string \<Rightarrow> json option" where
  "record_of h raw = (if trim raw = [] then None else JSON_parse h (trim raw))"

definition turn_of :: "host \<Rightarrow> string \<Rightarrow> string option" where
  "turn_of h raw =
     (case record_of h raw of
        None \<Rightarrow> None
      | Some obj \<Rightarrow>
          if get obj ''type'' = Some (JStr ''user'') then Some ''user''
          else if get obj ''type'' = Some (JStr ''assistant'') then Some ''assistant''
          else None)"

fun last_turn :: "host \<Rightarrow> string list \<Rightarrow> string" where
  "last_turn h [] = []"
| "last_turn h (l # ls) = (case turn_of h l of Some t \<Rightarrow> t | None \<Rightarrow> last_turn h ls)"

text \<open>The event types the parser emits.\<close>

definition PARSER_TYPES :: "string list" where
  "PARSER_TYPES = [''prompt'', ''assistant'', ''tool_call'', ''sub_agent_spawn'', ''correction'',
     ''compaction'', ''error'']"

section \<open>Example inputs\<close>

definition demo_config :: TriageConfig where
  "demo_config = \<lparr>alwaysCheck = Some [''auth''], skip = Some [''typo''],
     crossServiceKeywords = None, strictness = None, relatedAliases = None\<rparr>"

text \<open>
  The lines of the example session files, with the values \<open>JSON.parse\<close> gives for them.
\<close>

definition line_summary :: string where
  \<open>line_summary = ''{"type":"summary","gitBranch":"main","sessionId":"s1"}''\<close>

definition json_summary :: json where
  "json_summary = JObj [(''type'', JStr ''summary''), (''gitBranch'', JStr ''main''),
     (''sessionId'', JStr ''s1'')]"

definition line_user_fix :: string where
  \<open>line_user_fix = ''{"type":"user","message":{"content":"fix the bug"}}''\<close>

definition json_user_fix :: json where
  "json_user_fix = JObj [(''type'', JStr ''user''),
     (''message'', JObj [(''content'', JStr ''fix the bug'')])]"

definition line_assistant :: string where
  \<open>line_assistant = ''{"type":"assistant","timestamp":"2025-01-01T00:00:00.000Z","message":{"content":[{"type":"text","text":"done"},{"type":"tool_use","name":"Read","input":"a.ts"}]}}''\<close>

definition json_assistant :: json where
  "json_assistant = JObj [(''type'', JStr ''assistant''),
     (''timestamp'', JStr ''2025-01-01T00:00:00.000Z''),
     (''message'', JObj [(''content'', JArr
        [JObj [(''type'', JStr ''text''), (''text'', JStr ''done'')],
         JObj [(''type'', JStr ''tool_use''), (''name'', JStr ''Read''),
               (''input'', JStr ''a.ts'')]])])]"

definition line_user_no :: string where
  \<open>line_user_no = ''{"type":"user","message":{"content":"no, undo that"}}''\<close>

definition json_user_no :: json where
  "json_user_no = JObj [(''type'', JStr ''user''),
     (''message'', JObj [(''content'', JStr ''no, undo that'')])]"

definition line_user_revert :: string where
  \<open>line_user_revert = ''{"type":"user","message":{"content":"please revert"}}''\<close>

definition json_user_revert :: json where
  "json_user_revert = JObj [(''type'', JStr ''user''),
     (''message'', JObj [(''content'', JStr ''please revert'')])]"

definition line_task :: string where
  \<open>line_task = ''{"type":"assistant","message":{"content":[{"type":"tool_use","name":"Task","input":"look"}]}}''\<close>

definition json_task :: json where
  "json_task = JObj [(''type'', JStr ''assistant''),
     (''message'', JObj [(''content'', JArr
        [JObj [(''type'', JStr ''tool_use''), (''name'', JStr ''Task''),
               (''input'', JStr ''look'')]])])]"

definition line_tool_error :: string where
  \<open>line_tool_error = ''{"type":"tool_result","is_error":true,"content":"boom"}''\<close>

definition json_tool_error :: json where
  "json_tool_error = JObj [(''type'', JStr ''tool_result''), (''is_error'', JBool True),
     (''content'', JStr ''boom'')]"

definition line_compaction :: string where
  \<open>line_compaction = ''{"type":"system","subtype":"compaction"}''\<close>

definition json_compaction :: json where
  "json_compaction = JObj [(''type'', JStr ''system''), (''subtype'', JStr ''compaction'')]"

definition line_malformed :: string where
  \<open>line_malformed = ''{"type":"user",''\<close>

definition line_null :: string where
  "line_null = ''null''"

text \<open>
  A host that agrees with Node on the lines, values and dates of the examples: \<open>JSON.parse\<close>
  throws on every other line, and the \<open>k\<close>-th identifier drawn is \<open>id-k\<close>.
\<close>

definition demo_host :: host where
  \<open>demo_host =
     \<lparr>JSON_parse = map_of [(line_summary, json_summary), (line_user_fix, json_user_fix),
        (line_assistant, json_assistant), (line_user_no, json_user_no),
        (line_user_revert, json_user_revert), (line_null, JNull), (line_task, json_task),
        (line_tool_error, json_tool_error), (line_compaction, json_compaction)],
      JSON_stringify = (\<lambda>v. case map_of
         [(JObj [(''model'', JStr [])], ''{"model":""}''),
          (JObj [(''tool'', JStr ''Read'')], ''{"tool":"Read"}''),
          (JObj [(''tool'', JStr ''Task'')], ''{"tool":"Task"}''),
          (JObj [(''tool_use_id'', JStr [])], ''{"tool_use_id":""}'')] v of
            None \<Rightarrow> ''null'' | Some s \<Rightarrow> s),
      String_of = (\<lambda>v. ''[object Object]''),
      Date_parse = map_of [(''2025-01-01T00:00:00.000Z'', 1735689600000),
                           (''2025-01-01T01:00:00.000Z'', 1735693200000)],
      toISOString = (\<lambda>t. if t = 1735689600000 then ''2025-01-01T00:00:00.000Z''
                          else ''2025-01-01T01:00:00.000Z''),
      randomUUID = (\<lambda>k. ''id-'' @ show_nat k)\<rparr>\<close>

definition lines_text :: "string list \<Rightarrow> string" where
  "lines_text ls = join ls [newline]"

text \<open>
  The example file system: one session with a summary, a prompt, a malformed line, an
  assistant turn and a correction; one where \<open>please revert\<close> follows an assistant turn; one
  with a line \<open>null\<close> between two prompts; one with a sub-agent dispatch, a failed tool
  result and a compaction.
\<close>

definition lines_s1 :: "string list" where
  "lines_s1 = [line_summary, line_user_fix, line_malformed, line_assistant, line_user_no, []]"

definition lines_s2 :: "string list" where
  "lines_s2 = [line_assistant, line_user_revert]"

definition lines_s3 :: "string list" where
  "lines_s3 = [line_user_fix, line_null, line_user_fix]"

definition lines_s5 :: "string list" where
  "lines_s5 = [line_task, line_tool_error, line_compaction]"

definition demo_fs :: filesystem where
  "demo_fs = map_of
     [(''/p/s1.jsonl'', \<lparr>mtime = 1735693200000, size_bytes = 340, contents = lines_text lines_s1\<rparr>),
      (''/p/s2.jsonl'', \<lparr>mtime = 1735693200000, size_bytes = 216, contents = lines_text lines_s2\<rparr>),
      (''/p/s3.jsonl'', \<lparr>mtime = 1735693200000, size_bytes = 108, contents = lines_text lines_s3\<rparr>),
      (''/p/s5.jsonl'', \<lparr>mtime = 1735693200000, size_bytes = 190, contents = lines_text lines_s5\<rparr>)]"

definition demo_events :: "TimelineEvent list" where
  "demo_events = (case parseSession demo_fs demo_host ''/p/s1.jsonl'' ''/p'' ''p'' of
                    Inl e \<Rightarrow> [] | Inr evs \<Rightarrow> evs)"

definition demo_sessions :: "ParsedSession list" where
  "demo_sessions = [classifyEvents demo_host demo_events]"




definition demo_scorecard :: Scorecard where
  "demo_scorecard = computeScorecard ''2025-01-01T01:00:00.000Z'' demo_sessions ''p'' ''day''"

section \<open>Properties of the triage classifier\<close>

lemma find_skip_level:
  assumes "find (\<lambda>kw. str_includes (lower prompt) (lower kw)) (or_empty (skip cfg)) = Some kw"
  shows "level (triagePrompt prompt (Some cfg)) = Trivial"
    and "confidence (triagePrompt prompt (Some cfg)) = 95 / 100"
  using assms by (simp_all add: triagePrompt_def)

lemma find_always_level:
  assumes "find (\<lambda>kw. str_includes (lower prompt) (lower kw)) (or_empty (skip cfg)) = None"
    and "find (\<lambda>kw. str_includes (lower prompt) (lower kw)) (or_empty (alwaysCheck cfg)) = Some kw"
  shows "level (triagePrompt prompt (Some cfg)) \<in> {Ambiguous, CrossService, MultiStep}"
  using assms by (simp add: triagePrompt_def Let_def)

text \<open>
  C2, as amended.  A prompt that contains a configured skip keyword is \<open>trivial\<close> with
  confidence 0.95, whatever else it matches (multi-step indicators included).  A prompt that
  contains no configured skip keyword and contains a configured always-check keyword is
  classified \<open>ambiguous\<close>, \<open>cross-service\<close> or \<open>multi-step\<close>, whether or not an
  ambiguous-verb signal fires.
\<close>

theorem triage_priority_ordering:
  "((\<exists>kw \<in> set (or_empty (skip cfg)). str_includes (lower prompt) (lower kw)) \<longrightarrow>
      level (triagePrompt prompt (Some cfg)) = Trivial
      \<and> confidence (triagePrompt prompt (Some cfg)) = 95 / 100)
   \<and> ((\<forall>kw \<in> set (or_empty (skip cfg)). \<not> str_includes (lower prompt) (lower kw))
       \<and> (\<exists>kw \<in> set (or_empty (alwaysCheck cfg)). str_includes (lower prompt) (lower kw)) \<longrightarrow>
      level (triagePrompt prompt (Some cfg)) \<in> {Ambiguous, CrossService, MultiStep})"
proof (intro conjI impI)
  assume "\<exists>kw \<in> set (or_empty (skip cfg)). str_includes (lower prompt) (lower kw)"
  then obtain kw where
    "find (\<lambda>kw. str_includes (lower prompt) (lower kw)) (or_empty (skip cfg)) = Some kw"
    by (cases "find (\<lambda>kw. str_includes (lower prompt) (lower kw)) (or_empty (skip cfg))")
       (auto simp: find_None_iff)
  then show "level (triagePrompt prompt (Some cfg)) = Trivial"
    and "confidence (triagePrompt prompt (Some cfg)) = 95 / 100"
    by (rule find_skip_level)+
next
  assume a: "(\<forall>kw \<in> set (or_empty (skip cfg)). \<not> str_includes (lower prompt) (lower kw))
       \<and> (\<exists>kw \<in> set (or_empty (alwaysCheck cfg)). str_includes (lower prompt) (lower kw))"
  then have n: "find (\<lambda>kw. str_includes (lower prompt) (lower kw)) (or_empty (skip cfg)) = None"
    by (simp add: find_None_iff)
  from a obtain kw where
    "find (\<lambda>kw. str_includes (lower prompt) (lower kw)) (or_empty (alwaysCheck cfg)) = Some kw"
    by (cases "find (\<lambda>kw. str_includes (lower prompt) (lower kw)) (or_empty (alwaysCheck cfg))")
       (auto simp: find_None_iff)
  with n show "level (triagePrompt prompt (Some cfg)) \<in> {Ambiguous, CrossService, MultiStep}"
    by (rule find_always_level)
qed

theorem triage_priority_ordering_witness:
  "(str_includes (lower ''fix typo and then push it'') (lower ''typo'')
    \<and> isMultiStep ''fix typo and then push it''
    \<and> level (triagePrompt ''fix typo and then push it'' (Some demo_config)) = Trivial
    \<and> confidence (triagePrompt ''fix typo and then push it'' (Some demo_config)) = 95 / 100)
   \<and> (\<not> str_includes (lower ''fix the auth bug'') (lower ''typo'')
      \<and> str_includes (lower ''fix the auth bug'') (lower ''auth'')
      \<and> hasVagueVerbs ''fix the auth bug''
      \<and> level (triagePrompt ''fix the auth bug'' (Some demo_config))
          \<in> {Ambiguous, CrossService, MultiStep})"
proof -
  have s1: "str_includes (lower ''fix typo and then push it'') (lower ''typo'')"
    by code_simp
  have m1: "isMultiStep ''fix typo and then push it''"
    by code_simp
  have s2: "\<not> str_includes (lower ''fix the auth bug'') (lower ''typo'')"
    by code_simp
  have a2: "str_includes (lower ''fix the auth bug'') (lower ''auth'')"
    by code_simp
  have v2: "hasVagueVerbs ''fix the auth bug''"
    by code_simp
  have h1: "\<exists>kw \<in> set (or_empty (skip demo_config)).
              str_includes (lower ''fix typo and then push it'') (lower kw)"
    using s1 by (simp add: demo_config_def or_empty_def)
  have h2: "(\<forall>kw \<in> set (or_empty (skip demo_config)).
               \<not> str_includes (lower ''fix the auth bug'') (lower kw))
            \<and> (\<exists>kw \<in> set (or_empty (alwaysCheck demo_config)).
               str_includes (lower ''fix the auth bug'') (lower kw))"
    using s2 a2 by (simp add: demo_config_def or_empty_def)
  from triage_priority_ordering [of demo_config "''fix typo and then push it''"] h1
  have c1: "level (triagePrompt ''fix typo and then push it'' (Some demo_config)) = Trivial
    \<and> confidence (triagePrompt ''fix typo and then push it'' (Some demo_config)) = 95 / 100"
    by blast
  from triage_priority_ordering [of demo_config "''fix the auth bug''"] h2
  have c2: "level (triagePrompt ''fix the auth bug'' (Some demo_config))
          \<in> {Ambiguous, CrossService, MultiStep}"
    by blast
  from s1 m1 s2 a2 v2 c1 c2 show ?thesis by blast
qed

text \<open>
  C2 as stated fails where a skip keyword matches as well: the prompt below contains the
  always-check keyword \<open>auth\<close> and the vague verb \<open>fix\<close> with no concrete target, and is
  classified \<open>trivial\<close> because it contains the skip keyword \<open>typo\<close>.
\<close>

theorem always_check_counterexample:
  "str_includes (lower ''fix typo in auth'') (lower ''auth'')
   \<and> hasVagueVerbs ''fix typo in auth''
   \<and> level (triagePrompt ''fix typo in auth'' (Some demo_config)) = Trivial"
  by code_simp

text \<open>
  C9.  The prompt \<open>src/foo.ts\<close> is shorter than 20 characters, is just a file path (the
  second implementation's \<open>isFilePath\<close> accepts it), matches no multi-step indicator and no
  cross-service term, and no keyword is configured; \<open>triagePrompt\<close> classifies it \<open>clear\<close>,
  not \<open>trivial\<close>.
\<close>

theorem bare_file_path_is_clear:
  "length (trim ''src/foo.ts'') < 20
   \<and> isFilePath ''src/foo.ts''
   \<and> \<not> isMultiStep ''src/foo.ts''
   \<and> detectCrossService ''src/foo.ts'' no_config = []
   \<and> \<not> isTrivialCommand ''src/foo.ts''
   \<and> level (triagePrompt ''src/foo.ts'' None) = Clear"
  by code_simp

section \<open>Properties of the session log parser\<close>

lemma with_ids_length [simp]: "length (with_ids h k fs) = length fs"
  by (induction fs arbitrary: k) auto

lemma with_ids_mem: "e \<in> set (with_ids h k fs) \<Longrightarrow> \<exists>f \<in> set fs. \<exists>u. e = f u"
  by (induction fs arbitrary: k) auto

lemma makeEvent_fields [simp]:
  "type (makeEvent b ty c md u) = ty"
  "content (makeEvent b ty c md u) = c"
  "source_line (makeEvent b ty c md u) = b_source_line b"
  by (simp_all add: makeEvent_def)

lemma tool_event_fields:
  "type (tool_event h b t u) \<in> {''sub_agent_spawn'', ''tool_call''}"
  "source_line (tool_event h b t u) = b_source_line b"
  by (simp_all add: tool_event_def Let_def)

lemma with_ids_all:
  "(\<And>f u. f \<in> set fs \<Longrightarrow> P (f u)) \<Longrightarrow> e \<in> set (with_ids h k fs) \<Longrightarrow> P e"
  by (induction fs arbitrary: k) auto

lemma with_ids_tool:
  assumes "e \<in> set (with_ids h k (map (tool_event h b) ts))"
  shows "(type e = ''sub_agent_spawn'' \<or> type e = ''tool_call'') \<and> source_line e = b_source_line b"
proof (rule with_ids_all [OF _ assms])
  fix f u assume "f \<in> set (map (tool_event h b) ts)"
  then obtain t where "f = tool_event h b t" by auto
  then show "(type (f u) = ''sub_agent_spawn'' \<or> type (f u) = ''tool_call'')
      \<and> source_line (f u) = b_source_line b"
    using tool_event_fields [of h b t u] by simp
qed

lemma processRecord_events:
  assumes "processRecord h obj fp proj pn br sid fb n lt k = Inr evs" and "e \<in> set evs"
  shows "type e \<in> set PARSER_TYPES \<and> source_line e = n"
  using assms unfolding processRecord_def Let_def PARSER_TYPES_def
  by (auto split: if_splits sum.splits dest!: with_ids_tool)

lemma parse_loop_append:
  "parse_loop h fp proj pn fb i (xs @ ys) st =
     (case parse_loop h fp proj pn fb i xs st of
        Inl e \<Rightarrow> Inl e
      | Inr st' \<Rightarrow> parse_loop h fp proj pn fb (i + length xs) ys st')"
  by (induction xs arbitrary: i st) (auto split: sum.splits)

lemma parse_line_cases:
  assumes "parse_line h fp proj pn fb i raw st = Inr st'"
  obtains (blank) "trim raw = []" "st' = st"
  | (malformed) "trim raw \<noteq> []" "JSON_parse h (trim raw) = None"
      "st_events st' = st_events st" "st_lastType st' = st_lastType st"
  | (summary) obj where "trim raw \<noteq> []" "JSON_parse h (trim raw) = Some obj" "obj \<noteq> JNull"
      "get obj ''type'' = Some (JStr ''summary'')"
      "st_events st' = st_events st" "st_lastType st' = st_lastType st"
  | (other) obj evts where "trim raw \<noteq> []" "JSON_parse h (trim raw) = Some obj" "obj \<noteq> JNull"
      "get obj ''type'' \<noteq> Some (JStr ''summary'')"
      "processRecord h obj fp proj pn (st_branch st) (st_sessionId st) fb (i + 1)
         (st_lastType st) (length (st_events st)) = Inr evts"
      "st_events st' = st_events st @ evts"
      "st_lastType st' = (if get obj ''type'' = Some (JStr ''user'') then ''user''
                          else if get obj ''type'' = Some (JStr ''assistant'') then ''assistant''
                          else st_lastType st)"
proof (cases "trim raw = []")
  case True
  with assms have "st' = st" by (simp add: parse_line_def)
  with True show ?thesis by (rule blank)
next
  case ne: False
  show ?thesis
  proof (cases "JSON_parse h (trim raw)")
    case None
    with ne assms have "st' = st\<lparr>st_stderr := st_stderr st @
                 [''[session-parser] malformed line '' @ show_nat (i + 1) @ '' in ''
                    @ fp @ [newline]]\<rparr>"
      by (simp add: parse_line_def)
    then have "st_events st' = st_events st" "st_lastType st' = st_lastType st" by simp_all
    with ne None show ?thesis by (rule malformed)
  next
    case (Some obj)
    show ?thesis
    proof (cases "obj = JNull")
      case True
      with ne Some assms show ?thesis by (simp add: parse_line_def)
    next
      case nn: False
      show ?thesis
      proof (cases "get obj ''type'' = Some (JStr ''summary'')")
        case True
        with ne Some nn assms have
          "st' = st\<lparr>st_branch := nullish_or (get obj ''gitBranch'') (JStr []),
                    st_sessionId := (if truthy (get obj ''sessionId'')
                                     then nullish_or (get obj ''sessionId'') (JStr [])
                                     else st_sessionId st)\<rparr>"
          by (simp add: parse_line_def)
        then have "st_events st' = st_events st" "st_lastType st' = st_lastType st" by simp_all
        with ne Some nn True show ?thesis by (rule summary)
      next
        case ns: False
        show ?thesis
        proof (cases "processRecord h obj fp proj pn (st_branch st) (st_sessionId st) fb (i + 1)
                        (st_lastType st) (length (st_events st))")
          case (Inl e)
          with ne Some nn ns assms show ?thesis by (simp add: parse_line_def)
        next
          case (Inr evts)
          with ne Some nn ns assms have
            "st' = st\<lparr>st_lastType :=
                           (if get obj ''type'' = Some (JStr ''user'') then ''user''
                            else if get obj ''type'' = Some (JStr ''assistant'') then ''assistant''
                            else st_lastType st),
                         st_events := st_events st @ evts\<rparr>"
            by (simp add: parse_line_def)
          then have "st_events st' = st_events st @ evts"
            "st_lastType st' = (if get obj ''type'' = Some (JStr ''user'') then ''user''
                          else if get obj ''type'' = Some (JStr ''assistant'') then ''assistant''
                          else st_lastType st)"
            by simp_all
          with ne Some nn ns Inr show ?thesis by (rule other)
        qed
      qed
    qed
  qed
qed


lemma parse_line_events:
  assumes "parse_line h fp proj pn fb i raw st = Inr st'"
  shows "\<exists>more. st_events st' = st_events st @ more
           \<and> (\<forall>e \<in> set more. type e \<in> set PARSER_TYPES \<and> source_line e = i + 1)"
  using assms
proof (cases rule: parse_line_cases)
  case (other obj evts)
  then show ?thesis using processRecord_events [OF other(5)] by blast
qed auto

lemma sorted_const_map: "(\<forall>e \<in> set m. f e = (c :: nat)) \<Longrightarrow> sorted (map f m)"
  by (induction m) auto

lemma parse_loop_events:
  assumes "parse_loop h fp proj pn fb i ls st = Inr st'"
  shows "\<exists>more. st_events st' = st_events st @ more
           \<and> (\<forall>e \<in> set more. type e \<in> set PARSER_TYPES \<and> i < source_line e
                 \<and> source_line e \<le> i + length ls)
           \<and> sorted (map source_line more)"
  using assms
proof (induction ls arbitrary: i st)
  case Nil
  then show ?case by simp
next
  case (Cons l ls)
  from Cons.prems obtain st1 where
    l: "parse_line h fp proj pn fb i l st = Inr st1"
    and r: "parse_loop h fp proj pn fb (Suc i) ls st1 = Inr st'"
    by (auto split: sum.splits)
  from parse_line_events [OF l] obtain m1 where
    m1: "st_events st1 = st_events st @ m1"
      "\<forall>e \<in> set m1. type e \<in> set PARSER_TYPES \<and> source_line e = i + 1"
    by blast
  from Cons.IH [OF r] obtain m2 where
    m2: "st_events st' = st_events st1 @ m2"
      "\<forall>e \<in> set m2. type e \<in> set PARSER_TYPES \<and> Suc i < source_line e
          \<and> source_line e \<le> Suc i + length ls"
      "sorted (map source_line m2)"
    by blast
  have s1: "sorted (map source_line m1)"
    using m1(2) by (intro sorted_const_map [where c = "i + 1"]) simp
  have "\<forall>x \<in> set m1. \<forall>y \<in> set m2. source_line x \<le> source_line y"
    using m1(2) m2(2) by fastforce
  with s1 m2(3) have "sorted (map source_line (m1 @ m2))"
    by (simp add: sorted_append)
  moreover have "\<forall>e \<in> set (m1 @ m2). type e \<in> set PARSER_TYPES \<and> i < source_line e
                 \<and> source_line e \<le> i + length (l # ls)"
    using m1(2) m2(2) by auto
  ultimately show ?case using m1(1) m2(1) by (intro exI [of _ "m1 @ m2"]) simp
qed

lemma parse_line_lastType:
  assumes "parse_line h fp proj pn fb i raw st = Inr st'"
  shows "st_lastType st' = (case turn_of h raw of Some t \<Rightarrow> t | None \<Rightarrow> st_lastType st)"
  using assms
  by (cases rule: parse_line_cases) (simp_all add: turn_of_def record_of_def)

lemma parse_loop_lastType:
  assumes "parse_loop h fp proj pn fb i ls st = Inr st'" and "st_lastType st = []"
  shows "st_lastType st' = last_turn h (rev ls)"
  using assms
proof (induction ls arbitrary: st' rule: rev_induct)
  case Nil
  then show ?case by simp
next
  case (snoc l ls)
  from snoc.prems(1) obtain st1 where
    a: "parse_loop h fp proj pn fb i ls st = Inr st1"
    and b: "parse_line h fp proj pn fb (i + length ls) l st1 = Inr st'"
    by (auto simp: parse_loop_append split: sum.splits)
  from snoc.IH [OF a snoc.prems(2)] have "st_lastType st1 = last_turn h (rev ls)" .
  with parse_line_lastType [OF b] show ?case by (simp split: option.splits)
qed

lemma isCorrection_nonempty: "isCorrection text \<Longrightarrow> text \<noteq> []"
proof
  assume "isCorrection text" and "text = []"
  then have "isCorrection []" by simp
  moreover have "\<not> isCorrection []" by code_simp
  ultimately show False by simp
qed

lemma user_record_event:
  assumes "record_of h raw = Some obj" and "get obj ''type'' = Some (JStr ''user'')"
    and "extractText (opt_get (get obj ''message'') ''content'') = Inr text"
    and "isCorrection text"
    and "parse_line h fp proj pn fb i raw st = Inr st'"
  shows "\<exists>e. st_events st' = st_events st @ [e] \<and> content e = text \<and> source_line e = i + 1
           \<and> type e = (if st_lastType st = ''assistant'' then ''correction'' else ''prompt'')"
  using assms(5)
proof (cases rule: parse_line_cases)
  case blank
  with assms(1) show ?thesis by (simp add: record_of_def)
next
  case malformed
  with assms(1) show ?thesis by (simp add: record_of_def)
next
  case (summary obj')
  with assms(1,2) show ?thesis by (simp add: record_of_def)
next
  case (other obj' evts)
  with assms(1) have o: "obj' = obj" by (simp add: record_of_def)
  from isCorrection_nonempty [OF assms(4)] have ne: "text \<noteq> []" .
  from other(5) o assms(2,3,4) ne other(3)
  have "evts = [makeEvent
          \<lparr>b_timestamp = normalizeTimestamp h (get obj ''timestamp'') fb, b_project = proj,
           b_project_name = pn, b_branch = st_branch st, b_session_id = st_sessionId st,
           b_source_file = fp, b_source_line = i + 1\<rparr>
          (if st_lastType st = ''assistant'' then ''correction'' else ''prompt'') text ''{}''
          (randomUUID h (length (st_events st)))]"
    by (simp add: processRecord_def Let_def)
  with other(6) show ?thesis by simp
qed


lemma parseLinesSync_Inr:
  "parseLinesSync h ls fp proj pn fb = Inr evs \<longleftrightarrow>
     (\<exists>st. parse_loop h fp proj pn fb 0 ls (init_pstate fp) = Inr st \<and> st_events st = evs)"
  by (auto simp: parseLinesSync_def split: sum.splits)

lemma parseSession_events:
  assumes "parseSession fs h fp proj pn = Inr evs"
  shows "(\<forall>e \<in> set evs. type e \<in> set PARSER_TYPES) \<and> sorted (map source_line evs)"
proof -
  from assms obtain f where "fs fp = Some f"
    and "parseLinesSync h (split (contents f) [newline]) fp proj pn (toISOString h (mtime f)) = Inr evs"
    by (auto simp: parseSession_def statSync_def Let_def split: option.splits)
  then obtain st where
    "parse_loop h fp proj pn (toISOString h (mtime f)) 0 (split (contents f) [newline])
       (init_pstate fp) = Inr st" and "st_events st = evs"
    by (auto simp: parseLinesSync_Inr)
  from parse_loop_events [OF this(1)] this(2) show ?thesis
    by (auto simp: init_pstate_def)
qed

lemma of_type_empty:
  "(\<forall>e \<in> set evs. type e \<in> set PARSER_TYPES) \<Longrightarrow> ty \<notin> set PARSER_TYPES \<Longrightarrow> of_type ty evs = []"
  by (auto simp: of_type_def filter_empty_conv)

lemma show_nat_0: "show_nat 0 = ''0''"
  by code_simp

lemma lines_s1_split: "split (lines_text lines_s1) [newline] = lines_s1"
  by code_simp

lemma lines_s1_parse:
  "parseSession demo_fs demo_host ''/p/s1.jsonl'' ''/p'' ''p''
     = parseLinesSync demo_host lines_s1 ''/p/s1.jsonl'' ''/p'' ''p'' ''2025-01-01T01:00:00.000Z''"
  by (simp add: parseSession_def statSync_def demo_fs_def lines_s1_split demo_host_def)

lemma demo_events_ok:
  "parseSession demo_fs demo_host ''/p/s1.jsonl'' ''/p'' ''p'' = Inr demo_events"
proof -
  have "case parseSession demo_fs demo_host ''/p/s1.jsonl'' ''/p'' ''p'' of
          Inl e \<Rightarrow> False | Inr evs \<Rightarrow> True"
    by code_simp
  then show ?thesis by (simp add: demo_events_def split: sum.splits)
qed

text \<open>
  C3.  Let a line hold a user record whose extracted text matches a correction pattern.
  Whatever lines precede and follow it, the parser emits for it exactly one event, with
  that text and the line's number, and the event is a \<open>correction\<close> if the most recently
  seen user or assistant record among the preceding lines is an assistant record, and a
  \<open>prompt\<close> otherwise: in particular when nothing precedes it (\<open>last_turn h [] = []\<close>), and
  when the last such record is a user record.
\<close>

theorem correction_gating:
  assumes "record_of h raw = Some obj" and "get obj ''type'' = Some (JStr ''user'')"
    and "extractText (opt_get (get obj ''message'') ''content'') = Inr text"
    and "isCorrection text"
    and "parseLinesSync h (prefix @ raw # suffix) fp proj pn fb = Inr evs"
  shows "\<exists>earlier e later.
           parseLinesSync h prefix fp proj pn fb = Inr earlier
           \<and> parseLinesSync h (prefix @ [raw]) fp proj pn fb = Inr (earlier @ [e])
           \<and> evs = earlier @ e # later
           \<and> content e = text \<and> source_line e = length prefix + 1
           \<and> type e = (if last_turn h (rev prefix) = ''assistant'' then ''correction''
                       else ''prompt'')"
proof -
  from assms(5) obtain st3 where
    all: "parse_loop h fp proj pn fb 0 (prefix @ raw # suffix) (init_pstate fp) = Inr st3"
    and evs: "st_events st3 = evs"
    by (auto simp: parseLinesSync_Inr)
  from all obtain st1 where
    p: "parse_loop h fp proj pn fb 0 prefix (init_pstate fp) = Inr st1"
    and r: "parse_loop h fp proj pn fb (length prefix) (raw # suffix) st1 = Inr st3"
    by (auto simp: parse_loop_append split: sum.splits)
  from r obtain st2 where
    l: "parse_line h fp proj pn fb (length prefix) raw st1 = Inr st2"
    and s: "parse_loop h fp proj pn fb (Suc (length prefix)) suffix st2 = Inr st3"
    by (auto split: sum.splits)
  have lt: "st_lastType st1 = last_turn h (rev prefix)"
    using parse_loop_lastType [OF p] by (simp add: init_pstate_def)
  from user_record_event [OF assms(1-4) l] lt obtain e where
    e: "st_events st2 = st_events st1 @ [e]" "content e = text"
      "source_line e = length prefix + 1"
      "type e = (if last_turn h (rev prefix) = ''assistant'' then ''correction'' else ''prompt'')"
    by auto
  from parse_loop_events [OF s] obtain later where
    later: "st_events st3 = st_events st2 @ later"
    by blast
  have one: "parse_loop h fp proj pn fb 0 (prefix @ [raw]) (init_pstate fp) = Inr st2"
    using p l by (simp add: parse_loop_append)
  have "parseLinesSync h prefix fp proj pn fb = Inr (st_events st1)"
    using p by (simp add: parseLinesSync_def)
  moreover have "parseLinesSync h (prefix @ [raw]) fp proj pn fb = Inr (st_events st1 @ [e])"
    using one e(1) by (simp add: parseLinesSync_def)
  moreover have "evs = st_events st1 @ e # later"
    using evs later e(1) by simp
  ultimately show ?thesis using e(2-4) by blast
qed

theorem correction_gating_witness:
  "(record_of demo_host line_user_no = Some json_user_no
    \<and> isCorrection ''no, undo that''
    \<and> last_turn demo_host (rev [line_summary, line_user_fix, line_malformed, line_assistant])
        = ''assistant''
    \<and> (\<exists>earlier e later.
          parseLinesSync demo_host [line_summary, line_user_fix, line_malformed, line_assistant]
            ''/p/s1.jsonl'' ''/p'' ''p'' ''2025-01-01T01:00:00.000Z'' = Inr earlier
          \<and> demo_events = earlier @ e # later
          \<and> content e = ''no, undo that'' \<and> source_line e = 5 \<and> type e = ''correction''))
   \<and> (last_turn demo_host (rev []) = []
      \<and> (\<exists>e. parseLinesSync demo_host [line_user_no] ''/p/s1.jsonl'' ''/p'' ''p''
                ''2025-01-01T01:00:00.000Z'' = Inr [e]
              \<and> content e = ''no, undo that'' \<and> source_line e = 1 \<and> type e = ''prompt''))
   \<and> (last_turn demo_host (rev [line_user_fix]) = ''user''
      \<and> (\<exists>earlier e.
            parseLinesSync demo_host [line_user_fix, line_user_no] ''/p/s1.jsonl'' ''/p'' ''p''
              ''2025-01-01T01:00:00.000Z'' = Inr (earlier @ [e])
            \<and> content e = ''no, undo that'' \<and> source_line e = 2 \<and> type e = ''prompt''))"
proof -
  have r: "record_of demo_host line_user_no = Some json_user_no"
    by code_simp
  have u: "get json_user_no ''type'' = Some (JStr ''user'')"
    by code_simp
  have x: "extractText (opt_get (get json_user_no ''message'') ''content'') = Inr ''no, undo that''"
    by code_simp
  have c: "isCorrection ''no, undo that''"
    by code_simp
  have t1: "last_turn demo_host (rev [line_summary, line_user_fix, line_malformed, line_assistant])
        = ''assistant''"
    by code_simp
  have t2: "last_turn demo_host (rev []) = []"
    by simp
  have t3: "last_turn demo_host (rev [line_user_fix]) = ''user''"
    by code_simp
  have p1: "parseLinesSync demo_host
              ([line_summary, line_user_fix, line_malformed, line_assistant] @ line_user_no # [[]])
              ''/p/s1.jsonl'' ''/p'' ''p'' ''2025-01-01T01:00:00.000Z'' = Inr demo_events"
    using demo_events_ok by (simp add: lines_s1_parse lines_s1_def)
  have "case parseLinesSync demo_host ([] @ line_user_no # []) ''/p/s1.jsonl'' ''/p'' ''p''
               ''2025-01-01T01:00:00.000Z'' of Inl e \<Rightarrow> False | Inr evs \<Rightarrow> True"
    by code_simp
  then obtain evs2 where
    p2: "parseLinesSync demo_host ([] @ line_user_no # []) ''/p/s1.jsonl'' ''/p'' ''p''
               ''2025-01-01T01:00:00.000Z'' = Inr evs2"
    by (auto split: sum.splits)
  have "case parseLinesSync demo_host ([line_user_fix] @ line_user_no # []) ''/p/s1.jsonl''
               ''/p'' ''p'' ''2025-01-01T01:00:00.000Z'' of Inl e \<Rightarrow> False | Inr evs \<Rightarrow> True"
    by code_simp
  then obtain evs3 where
    p3: "parseLinesSync demo_host ([line_user_fix] @ line_user_no # []) ''/p/s1.jsonl''
               ''/p'' ''p'' ''2025-01-01T01:00:00.000Z'' = Inr evs3"
    by (auto split: sum.splits)
  from correction_gating [OF r u x c p1]
  have g1: "\<exists>earlier e later.
          parseLinesSync demo_host [line_summary, line_user_fix, line_malformed, line_assistant]
            ''/p/s1.jsonl'' ''/p'' ''p'' ''2025-01-01T01:00:00.000Z'' = Inr earlier
          \<and> demo_events = earlier @ e # later
          \<and> content e = ''no, undo that'' \<and> source_line e = 5 \<and> type e = ''correction''"
    unfolding t1 by (simp add: eval_nat_numeral) blast
  from correction_gating [OF r u x c p2]
  have g2: "\<exists>e. parseLinesSync demo_host [line_user_no] ''/p/s1.jsonl'' ''/p'' ''p''
                ''2025-01-01T01:00:00.000Z'' = Inr [e]
              \<and> content e = ''no, undo that'' \<and> source_line e = 1 \<and> type e = ''prompt''"
    unfolding t2 by (simp add: parseLinesSync_def init_pstate_def) blast
  from correction_gating [OF r u x c p3]
  have g3: "\<exists>earlier e.
            parseLinesSync demo_host [line_user_fix, line_user_no] ''/p/s1.jsonl'' ''/p'' ''p''
              ''2025-01-01T01:00:00.000Z'' = Inr (earlier @ [e])
            \<and> content e = ''no, undo that'' \<and> source_line e = 2 \<and> type e = ''prompt''"
    unfolding t3 by (simp add: eval_nat_numeral) blast
  from r c t1 t2 t3 g1 g2 g3 show ?thesis by blast
qed

lemma js_round_100: "js_round 100 = 100"
  by code_simp

lemma clamp_100: "clamp 100 = 100"
  by (simp add: clamp_def js_round_100)

lemma total_zero: "(\<forall>s \<in> set xs. f s = 0) \<Longrightarrow> total f xs = 0"
  by (induction xs) (auto simp: total_def)

lemma not_emitted:
  "''user_prompt'' \<notin> set PARSER_TYPES"
  "''assistant_response'' \<notin> set PARSER_TYPES"
  "''git_commit'' \<notin> set PARSER_TYPES"
  by (simp_all add: PARSER_TYPES_def)

lemma classify_parsed:
  assumes "parseSession fs h fp proj pn = Inr evs"
  shows "(\<forall>e \<in> set (events (classifyEvents h' evs)). type e \<in> set PARSER_TYPES)
         \<and> userMessages (classifyEvents h' evs) = []
         \<and> assistantMessages (classifyEvents h' evs) = []
         \<and> commits (classifyEvents h' evs) = []"
proof -
  from parseSession_events [OF assms] have t: "\<forall>e \<in> set evs. type e \<in> set PARSER_TYPES"
    by simp
  then show ?thesis
    by (simp add: classifyEvents_def of_type_empty [OF t] not_emitted)
qed

text \<open>
  C1.  Every event \<open>parseSession\<close> returns has one of the seven types \<open>prompt\<close>,
  \<open>assistant\<close>, \<open>tool_call\<close>, \<open>sub_agent_spawn\<close>, \<open>correction\<close>, \<open>compaction\<close>, \<open>error\<close>; so in
  every session \<open>classifyEvents\<close> builds from such a list the partitions \<open>userMessages\<close>,
  \<open>assistantMessages\<close> and \<open>commits\<close> are empty, and on any set of such sessions
  \<open>scoreClarification\<close> counts no user prompt: its evidence reads \<open>0/0 user prompts\<close> and its
  score is the 100 of an empty denominator.
\<close>

theorem parsed_sessions_have_no_user_messages:
  assumes "\<forall>s \<in> set sessions. \<exists>fs h fp proj pn evs h'.
             parseSession fs h fp proj pn = Inr evs \<and> s = classifyEvents h' evs"
  shows "(\<forall>s \<in> set sessions.
            (\<forall>e \<in> set (events s). type e \<in> set PARSER_TYPES)
            \<and> userMessages s = [] \<and> assistantMessages s = [] \<and> commits s = [])
         \<and> total (\<lambda>s. length (userMessages s)) sessions = 0
         \<and> evidence (scoreClarification sessions)
             = ''0/0 user prompts contained file paths or specific identifiers.''
         \<and> score (scoreClarification sessions) = 100"
proof -
  have a: "\<forall>s \<in> set sessions.
            (\<forall>e \<in> set (events s). type e \<in> set PARSER_TYPES)
            \<and> userMessages s = [] \<and> assistantMessages s = [] \<and> commits s = []"
  proof
    fix s assume "s \<in> set sessions"
    with assms obtain fs h fp proj pn evs h' where
      "parseSession fs h fp proj pn = Inr evs" and "s = classifyEvents h' evs"
      by blast
    with classify_parsed [of fs h fp proj pn evs h'] show
      "(\<forall>e \<in> set (events s). type e \<in> set PARSER_TYPES)
       \<and> userMessages s = [] \<and> assistantMessages s = [] \<and> commits s = []"
      by simp
  qed
  then have t: "total (\<lambda>s. length (userMessages s)) sessions = 0"
    by (intro total_zero) simp
  from a have sp: "total (\<lambda>s. count (\<lambda>m. hasFileRef (content m)) (userMessages s)) sessions = 0"
    by (intro total_zero) (simp add: count_def)
  have "evidence (scoreClarification sessions)
             = ''0/0 user prompts contained file paths or specific identifiers.''"
    by (simp add: scoreClarification_def Let_def t sp show_nat_0)
  moreover have "score (scoreClarification sessions) = 100"
    by (simp add: scoreClarification_def Let_def t sp pct_def clamp_100)
  ultimately show ?thesis using a t by blast
qed

theorem parsed_sessions_have_no_user_messages_witness:
  "parseSession demo_fs demo_host ''/p/s1.jsonl'' ''/p'' ''p'' = Inr demo_events
   \<and> map type demo_events = [''prompt'', ''assistant'', ''tool_call'', ''correction'']
   \<and> map_sum id (map type) (parseSession demo_fs demo_host ''/p/s5.jsonl'' ''/p'' ''p'')
       = Inr [''sub_agent_spawn'', ''error'', ''compaction'']
   \<and> userMessages (classifyEvents demo_host demo_events) = []
   \<and> assistantMessages (classifyEvents demo_host demo_events) = []
   \<and> commits (classifyEvents demo_host demo_events) = []
   \<and> total (\<lambda>s. length (userMessages s)) demo_sessions = 0
   \<and> evidence (scoreClarification demo_sessions)
       = ''0/0 user prompts contained file paths or specific identifiers.''
   \<and> score (scoreClarification demo_sessions) = 100"
proof -
  have h: "\<forall>s \<in> set demo_sessions. \<exists>fs h fp proj pn evs h'.
             parseSession fs h fp proj pn = Inr evs \<and> s = classifyEvents h' evs"
  proof -
    have "\<exists>fs h fp proj pn evs h'. parseSession fs h fp proj pn = Inr evs
            \<and> classifyEvents demo_host demo_events = classifyEvents h' evs"
      using demo_events_ok by blast
    then show ?thesis by (simp add: demo_sessions_def)
  qed
  have m: "map type demo_events = [''prompt'', ''assistant'', ''tool_call'', ''correction'']"
    by code_simp
  have o: "map_sum id (map type) (parseSession demo_fs demo_host ''/p/s5.jsonl'' ''/p'' ''p'')
       = Inr [''sub_agent_spawn'', ''error'', ''compaction'']"
    by code_simp
  from parsed_sessions_have_no_user_messages [OF h] demo_events_ok m o
  show ?thesis by (simp add: demo_sessions_def)
qed

text \<open>
  C4.  In the file below the record with the text \<open>please revert\<close> follows an assistant
  record.  The parser's pattern list has no pattern for \<open>revert\<close>, the text matches none of
  its seven patterns, and the record is emitted as a \<open>prompt\<close>, not as a \<open>correction\<close>.
\<close>

theorem revert_is_prompt:
  "last_turn demo_host (rev [line_assistant]) = ''assistant''
   \<and> record_of demo_host line_user_revert = Some json_user_revert
   \<and> extractText (opt_get (get json_user_revert ''message'') ''content'') = Inr ''please revert''
   \<and> \<not> isCorrection ''please revert''
   \<and> map_sum id (map (\<lambda>e. (type e, content e)))
        (parseSession demo_fs demo_host ''/p/s2.jsonl'' ''/p'' ''p'')
       = Inr [(''assistant'', ''done''), (''tool_call'', ''Read: a.ts''),
              (''prompt'', ''please revert'')]"
  by code_simp

text \<open>
  C5, as amended.  On a path that names no file \<open>parseSession\<close> raises the \<open>ENOENT\<close> error
  of \<open>statSync\<close>; it returns no list.
\<close>

theorem parseSession_missing_file:
  "fs filePath = None \<Longrightarrow> parseSession fs h filePath proj projectName = Inl ENOENT"
  by (simp add: parseSession_def statSync_def)

theorem parseSession_missing_file_witness:
  "demo_fs ''/p/s4.jsonl'' = None
   \<and> parseSession demo_fs demo_host ''/p/s4.jsonl'' ''/p'' ''p'' = Inl ENOENT"
proof -
  have n: "demo_fs ''/p/s4.jsonl'' = None"
    by (simp add: demo_fs_def)
  from n parseSession_missing_file [of demo_fs "''/p/s4.jsonl''" demo_host "''/p''" "''p''"]
  show ?thesis by simp
qed

text \<open>
  C5 as stated fails: for a path that names no file the result is not the empty list.
\<close>

theorem missing_file_counterexample:
  "demo_fs ''/p/absent.jsonl'' = None
   \<and> parseSession demo_fs demo_host ''/p/absent.jsonl'' ''/p'' ''p'' \<noteq> Inr []"
  by (simp add: demo_fs_def parseSession_def statSync_def)

text \<open>
  C6.  The second line of the file below is \<open>null\<close>, which is valid JSON.  Reading
  \<open>obj.type\<close> of the parsed value throws outside the \<open>try\<close> block, and \<open>parseSession\<close> ends
  with a \<open>TypeError\<close> instead of returning the events of the two prompts around it.
\<close>

theorem null_line_throws:
  "JSON_parse demo_host line_null = Some JNull
   \<and> split (contents (the (demo_fs ''/p/s3.jsonl''))) [newline]
       = [line_user_fix, line_null, line_user_fix]
   \<and> parseSession demo_fs demo_host ''/p/s3.jsonl'' ''/p'' ''p'' = Inl TypeError"
  by code_simp

section \<open>Properties of the scorecard engine\<close>

lemma clamp_range: "0 \<le> clamp v \<and> clamp v \<le> 100"
  by (simp add: clamp_def)

lemma scorePlans_range: "0 \<le> score (scorePlans ss) \<and> score (scorePlans ss) \<le> 100"
  by (simp add: scorePlans_def Let_def clamp_range)

lemma scoreClarification_range:
  "0 \<le> score (scoreClarification ss) \<and> score (scoreClarification ss) \<le> 100"
  by (simp add: scoreClarification_def Let_def clamp_range)

lemma scoreDelegation_range:
  "0 \<le> score (scoreDelegation ss) \<and> score (scoreDelegation ss) \<le> 100"
  by (simp add: scoreDelegation_def Let_def clamp_range)

lemma scoreFollowUpSpecificity_range:
  "0 \<le> score (scoreFollowUpSpecificity ss) \<and> score (scoreFollowUpSpecificity ss) \<le> 100"
  by (simp add: scoreFollowUpSpecificity_def Let_def clamp_range)

lemma scoreTokenEfficiency_range:
  "0 \<le> score (scoreTokenEfficiency ss) \<and> score (scoreTokenEfficiency ss) \<le> 100"
  by (simp add: scoreTokenEfficiency_def Let_def clamp_range)

lemma scoreSequencing_range:
  "0 \<le> score (scoreSequencing ss) \<and> score (scoreSequencing ss) \<le> 100"
  by (simp add: scoreSequencing_def Let_def clamp_range)

lemma scoreCompactionManagement_range:
  "0 \<le> score (scoreCompactionManagement ss) \<and> score (scoreCompactionManagement ss) \<le> 100"
  by (simp add: scoreCompactionManagement_def Let_def clamp_range)

lemma scoreSessionLifecycle_range:
  "0 \<le> score (scoreSessionLifecycle ss) \<and> score (scoreSessionLifecycle ss) \<le> 100"
  by (simp add: scoreSessionLifecycle_def Let_def clamp_range)

lemma scoreErrorRecovery_range:
  "0 \<le> score (scoreErrorRecovery ss) \<and> score (scoreErrorRecovery ss) \<le> 100"
  by (simp add: scoreErrorRecovery_def Let_def clamp_range)

lemma scoreWorkspaceHygiene_range:
  "0 \<le> score (scoreWorkspaceHygiene ss) \<and> score (scoreWorkspaceHygiene ss) \<le> 100"
  by (simp add: scoreWorkspaceHygiene_def Let_def clamp_range)

lemma scoreCrossSessionContinuity_range:
  "0 \<le> score (scoreCrossSessionContinuity ss) \<and> score (scoreCrossSessionContinuity ss) \<le> 100"
  by (simp add: scoreCrossSessionContinuity_def Let_def clamp_range)

lemma scoreVerification_range:
  "0 \<le> score (scoreVerification ss) \<and> score (scoreVerification ss) \<le> 100"
  by (simp add: scoreVerification_def Let_def clamp_range)

lemmas score_ranges = scorePlans_range scoreClarification_range scoreDelegation_range
  scoreFollowUpSpecificity_range scoreTokenEfficiency_range scoreSequencing_range
  scoreCompactionManagement_range scoreSessionLifecycle_range scoreErrorRecovery_range
  scoreWorkspaceHygiene_range scoreCrossSessionContinuity_range scoreVerification_range

text \<open>
  C8.  Each of the twelve category scores the scoring functions produce is an integer
  between 0 and 100, for every list of sessions; they are the categories of the scorecard,
  whose overall score is between 0 and 100 as well.
\<close>

theorem scores_within_bounds:
  "list_all (\<lambda>c. 0 \<le> score c \<and> score c \<le> 100) (all_categories sessions)
   \<and> length (all_categories sessions) = 12
   \<and> categories (computeScorecard now sessions proj per) = all_categories sessions
   \<and> 0 \<le> overall (computeScorecard now sessions proj per)
   \<and> overall (computeScorecard now sessions proj per) \<le> 100"
proof -
  have "list_all (\<lambda>c. 0 \<le> score c \<and> score c \<le> 100) (all_categories sessions)"
    by (simp add: all_categories_def score_ranges)
  moreover have "length (all_categories sessions) = 12"
    by (simp add: all_categories_def)
  moreover have "categories (computeScorecard now sessions proj per) = all_categories sessions"
    by (simp add: computeScorecard_def Let_def)
  moreover have "0 \<le> overall (computeScorecard now sessions proj per)
      \<and> overall (computeScorecard now sessions proj per) \<le> 100"
    by (simp add: computeScorecard_def Let_def clamp_range)
  ultimately show ?thesis by blast
qed

lemma sort_cmp_Cons: "sort_cmp cmp (x # xs) = insort_cmp cmp x (sort_cmp cmp xs)"
  by (simp add: sort_cmp_def)

lemma insort_cmp_nonempty: "insort_cmp cmp x ys \<noteq> []"
  by (cases ys) auto

lemma set_insort_cmp: "set (insort_cmp cmp x ys) = insert x (set ys)"
  by (induction ys) auto

lemma set_sort_cmp: "set (sort_cmp cmp xs) = set xs"
  by (induction xs) (auto simp: sort_cmp_Cons set_insort_cmp sort_cmp_def)

lemma sort_cmp_empty: "sort_cmp cmp xs = [] \<longleftrightarrow> xs = []"
  by (cases xs) (auto simp: sort_cmp_Cons insort_cmp_nonempty sort_cmp_def)

lemma hd_insort_cmp:
  "hd (insort_cmp cmp x ys) = (if ys = [] \<or> cmp x (hd ys) \<le> 0 then x else hd ys)"
  by (cases ys) auto

lemma last_insort_cmp:
  "last (insort_cmp cmp x ys) = (if \<forall>y \<in> set ys. 0 < cmp x y then x else last ys)"
  by (induction ys) (auto simp: insort_cmp_nonempty)

text \<open>The head of the sorted list: a maximum, with only smaller elements in front of it.\<close>

lemma hd_sort_desc:
  assumes "xs \<noteq> []"
  shows "\<exists>ys zs. xs = ys @ hd (sort_cmp (\<lambda>a b. f b - f a) xs) # zs
           \<and> (\<forall>y \<in> set ys. f y < f (hd (sort_cmp (\<lambda>a b. f b - f a) xs)))
           \<and> (\<forall>d \<in> set xs. f d \<le> f (hd (sort_cmp (\<lambda>a b. f b - (f a :: int)) xs)))"
  using assms
proof (induction xs)
  case Nil
  then show ?case by simp
next
  case (Cons x xs)
  let ?s = "sort_cmp (\<lambda>a b. f b - f a)"
  show ?case
  proof (cases "xs = []")
    case True
    then show ?thesis
      by (simp add: sort_cmp_def) (intro exI [of _ "[]"], simp)
  next
    case False
    from Cons.IH [OF False] obtain ys zs where
      ih: "xs = ys @ hd (?s xs) # zs" "\<forall>y \<in> set ys. f y < f (hd (?s xs))"
        "\<forall>d \<in> set xs. f d \<le> f (hd (?s xs))"
      by blast
    have ne: "?s xs \<noteq> []" using False by (simp add: sort_cmp_empty)
    show ?thesis
    proof (cases "f (hd (?s xs)) \<le> f x")
      case True
      then have h: "hd (?s (x # xs)) = x"
        by (simp add: sort_cmp_Cons hd_insort_cmp)
      have "x # xs = [] @ x # xs" by simp
      moreover have "\<forall>d \<in> set (x # xs). f d \<le> f x" using ih(3) True by auto
      ultimately show ?thesis unfolding h by (intro exI [of _ "[]"] exI [of _ xs]) simp
    next
      case False
      then have h: "hd (?s (x # xs)) = hd (?s xs)"
        using ne by (simp add: sort_cmp_Cons hd_insort_cmp)
      have "x # xs = (x # ys) @ hd (?s xs) # zs" using ih(1) by simp
      moreover have "\<forall>y \<in> set (x # ys). f y < f (hd (?s xs))" using ih(2) False by auto
      moreover have "\<forall>d \<in> set (x # xs). f d \<le> f (hd (?s xs))" using ih(3) False by auto
      ultimately show ?thesis unfolding h by (intro exI [of _ "x # ys"] exI [of _ zs]) blast
    qed
  qed
qed

text \<open>The last of the sorted list: a minimum, with only greater elements behind it.\<close>

lemma last_sort_desc:
  assumes "xs \<noteq> []"
  shows "\<exists>ys zs. xs = ys @ last (sort_cmp (\<lambda>a b. f b - f a) xs) # zs
           \<and> (\<forall>z \<in> set zs. f (last (sort_cmp (\<lambda>a b. f b - f a) xs)) < f z)
           \<and> (\<forall>d \<in> set xs. f (last (sort_cmp (\<lambda>a b. f b - (f a :: int)) xs)) \<le> f d)"
  using assms
proof (induction xs)
  case Nil
  then show ?case by simp
next
  case (Cons x xs)
  let ?s = "sort_cmp (\<lambda>a b. f b - f a)"
  show ?case
  proof (cases "xs = []")
    case True
    then show ?thesis
      by (simp add: sort_cmp_def) (intro exI [of _ "[]"], simp)
  next
    case False
    from Cons.IH [OF False] obtain ys zs where
      ih: "xs = ys @ last (?s xs) # zs" "\<forall>z \<in> set zs. f (last (?s xs)) < f z"
        "\<forall>d \<in> set xs. f (last (?s xs)) \<le> f d"
      by blast
    show ?thesis
    proof (cases "\<forall>y \<in> set xs. f x < f y")
      case True
      then have h: "last (?s (x # xs)) = x"
        by (simp add: sort_cmp_Cons last_insort_cmp set_sort_cmp)
      have "\<forall>d \<in> set (x # xs). f x \<le> f d" using True by auto
      with True show ?thesis unfolding h by (intro exI [of _ "[]"] exI [of _ xs]) simp
    next
      case nt: False
      then have h: "last (?s (x # xs)) = last (?s xs)"
        by (auto simp: sort_cmp_Cons last_insort_cmp set_sort_cmp)
      from nt obtain y where "y \<in> set xs" "f y \<le> f x" by force
      with ih(3) have "f (last (?s xs)) \<le> f x" by force
      with ih(3) have "\<forall>d \<in> set (x # xs). f (last (?s xs)) \<le> f d" by auto
      moreover have "x # xs = (x # ys) @ last (?s xs) # zs" using ih(1) by simp
      ultimately show ?thesis unfolding h using ih(2)
        by (intro exI [of _ "x # ys"] exI [of _ zs]) blast
    qed
  qed
qed

lemma find_first:
  "(\<forall>y \<in> set ys. \<not> P y) \<Longrightarrow> P b \<Longrightarrow> find P (ys @ b # zs) = Some b"
  by (induction ys) auto

lemma find_best:
  assumes "xs \<noteq> []"
  shows "find (\<lambda>c. \<forall>d \<in> set xs. f d \<le> f c) xs = Some (hd (sort_cmp (\<lambda>a b. f b - (f a :: int)) xs))"
proof -
  let ?b = "hd (sort_cmp (\<lambda>a b. f b - f a) xs)"
  from hd_sort_desc [OF assms, of f] obtain ys zs where
    a: "xs = ys @ ?b # zs" "\<forall>y \<in> set ys. f y < f ?b" "\<forall>d \<in> set xs. f d \<le> f ?b"
    by blast
  have "?b \<in> set xs" using a(1) by (metis in_set_conv_decomp)
  with a(2) have "\<forall>y \<in> set ys. \<not> (\<forall>d \<in> set xs. f d \<le> f y)" by force
  from find_first [where P = "\<lambda>c. \<forall>d \<in> set xs. f d \<le> f c", OF this a(3), of zs] a(1)
  show ?thesis by simp
qed

lemma find_worst:
  assumes "xs \<noteq> []"
  shows "find (\<lambda>c. \<forall>d \<in> set xs. f c \<le> f d) (rev xs)
           = Some (last (sort_cmp (\<lambda>a b. f b - (f a :: int)) xs))"
proof -
  let ?w = "last (sort_cmp (\<lambda>a b. f b - f a) xs)"
  from last_sort_desc [OF assms, of f] obtain ys zs where
    a: "xs = ys @ ?w # zs" "\<forall>z \<in> set zs. f ?w < f z" "\<forall>d \<in> set xs. f ?w \<le> f d"
    by blast
  have "?w \<in> set xs" using a(1) by (metis in_set_conv_decomp)
  with a(2) have n: "\<forall>z \<in> set (rev zs). \<not> (\<forall>d \<in> set xs. f z \<le> f d)" by force
  have "rev xs = rev zs @ ?w # rev ys" using a(1) by (metis rev.simps(2) rev_append append_assoc append_Cons append_Nil)
  with find_first [where P = "\<lambda>c. \<forall>d \<in> set xs. f c \<le> f d", OF n a(3), of "rev ys"]
  show ?thesis by simp
qed

text \<open>
  C10, as amended.  In the scorecard, \<open>highlights.best\<close> is the first category, in the
  canonical order, whose score is the maximum, and \<open>highlights.worst\<close> is the last category,
  in the canonical order, whose score is the minimum: the first one met when the list is
  read backwards.
\<close>

theorem highlights_best_first_worst_last:
  "find (\<lambda>c. \<forall>d \<in> set (categories (computeScorecard now sessions proj per)). score d \<le> score c)
        (categories (computeScorecard now sessions proj per))
     = Some (best (highlights (computeScorecard now sessions proj per)))
   \<and> find (\<lambda>c. \<forall>d \<in> set (categories (computeScorecard now sessions proj per)). score c \<le> score d)
        (rev (categories (computeScorecard now sessions proj per)))
     = Some (worst (highlights (computeScorecard now sessions proj per)))"
proof -
  have ne: "all_categories sessions \<noteq> []" by (simp add: all_categories_def)
  show ?thesis
    using find_best [OF ne, of score] find_worst [OF ne, of score]
    by (simp add: computeScorecard_def Let_def)
qed

theorem highlights_best_first_worst_last_witness:
  "map (\<lambda>c. (name c, score c)) (categories demo_scorecard)
     = [(''Plans'', 0), (''Clarification'', 100), (''Delegation'', 75),
        (''Follow-up Specificity'', 100), (''Token Efficiency'', 100), (''Sequencing'', 100),
        (''Compaction Management'', 100), (''Session Lifecycle'', 100), (''Error Recovery'', 0),
        (''Workspace Hygiene'', 75), (''Cross-Session Continuity'', 0), (''Verification'', 0)]
   \<and> name (best (highlights demo_scorecard)) = ''Clarification''
   \<and> name (worst (highlights demo_scorecard)) = ''Verification''"
proof -
  have c: "map (\<lambda>c. (name c, score c)) (categories demo_scorecard)
     = [(''Plans'', 0), (''Clarification'', 100), (''Delegation'', 75),
        (''Follow-up Specificity'', 100), (''Token Efficiency'', 100), (''Sequencing'', 100),
        (''Compaction Management'', 100), (''Session Lifecycle'', 100), (''Error Recovery'', 0),
        (''Workspace Hygiene'', 75), (''Cross-Session Continuity'', 0), (''Verification'', 0)]"
    by code_simp
  have b: "map_option name
             (find (\<lambda>c. \<forall>d \<in> set (categories demo_scorecard). score d \<le> score c)
                (categories demo_scorecard)) = Some ''Clarification''"
    by code_simp
  have w: "map_option name
             (find (\<lambda>c. \<forall>d \<in> set (categories demo_scorecard). score c \<le> score d)
                (rev (categories demo_scorecard))) = Some ''Verification''"
    by code_simp
  from highlights_best_first_worst_last
         [of "''2025-01-01T01:00:00.000Z''" demo_sessions "''p''" "''day''"] b w c
  show ?thesis by (simp add: demo_scorecard_def)
qed

text \<open>
  C10 as stated fails for \<open>worst\<close>: in the scorecard of the example session the categories
  \<open>Plans\<close>, \<open>Error Recovery\<close>, \<open>Cross-Session Continuity\<close> and \<open>Verification\<close> tie at the
  minimum 0; \<open>Plans\<close> is the first of them in the canonical order, and \<open>highlights.worst\<close> is
  \<open>Verification\<close>, the last.
\<close>

theorem worst_tie_counterexample:
  "map score (categories demo_scorecard) = [0, 100, 75, 100, 100, 100, 100, 100, 0, 75, 0, 0]
   \<and> name (hd (categories demo_scorecard)) = ''Plans''
   \<and> score (hd (categories demo_scorecard)) = score (worst (highlights demo_scorecard))
   \<and> name (worst (highlights demo_scorecard)) = ''Verification''"
  by code_simp







end
